theory Spec2Isabelle
  imports Main "HOL-Library.AList" "HOL-Library.Sublist"
begin

section \<open>The class diagram parser of \<^verbatim>\<open>parser/class_parser.go\<close>\<close>

text \<open>
  A shallow embedding of \<^verbatim>\<open>src/parser/class_parser.go\<close>. Go strings are byte sequences and
  so are HOL strings (\<open>char list\<close>); \<^verbatim>\<open>s[0]\<close> is the first byte. A Go map that the code
  ranges over is an association list with unique keys, kept in insertion order; Go leaves
  the iteration order open, and the theorems on \<open>Render\<close> hold for every list, so for every
  order. A pointer \<^verbatim>\<open>*Struct\<close> is the pair of keys under which the object is stored. Every
  run-time panic of the source (an index out of range, a write to a nil map, a nil
  dereference) is a value \<open>Inl\<close> of the result.
\<close>

subsection \<open>Run-time panics\<close>

datatype panic = IndexOutOfRange | NilMapAssignment | NilDereference

subsection \<open>The standard library functions the code calls\<close>

text \<open>\<^verbatim>\<open>strings.Join(elems, sep)\<close>.\<close>

fun Join :: "string list \<Rightarrow> string \<Rightarrow> string" where
  "Join [] sep = []"
| "Join [x] sep = x"
| "Join (x # y # ys) sep = x @ sep @ Join (y # ys) sep"

text \<open>\<^verbatim>\<open>strings.Contains(s, substr)\<close>.\<close>

fun Contains :: "string \<Rightarrow> string \<Rightarrow> bool" where
  "Contains [] substr = (substr = [])"
| "Contains (c # cs) substr = (take (length substr) (c # cs) = substr \<or> Contains cs substr)"

text \<open>\<^verbatim>\<open>strings.HasSuffix(s, suffix)\<close>.\<close>

definition HasSuffix :: "string \<Rightarrow> string \<Rightarrow> bool" where
  "HasSuffix s suf = (length suf \<le> length s \<and> drop (length s - length suf) s = suf)"

text \<open>
  \<^verbatim>\<open>strings.SplitN(s, ".", 2)\<close>: the text before the first dot and the text after it, or
  \<open>s\<close> alone when it has no dot.
\<close>

definition SplitN_dot_2 :: "string \<Rightarrow> string list" where
  "SplitN_dot_2 s =
     (case dropWhile (\<lambda>c. c \<noteq> CHR ''.'') s of
        [] \<Rightarrow> [s]
      | _ # rest \<Rightarrow> [takeWhile (\<lambda>c. c \<noteq> CHR ''.'') s, rest])"

text \<open>
  \<^verbatim>\<open>unicode.IsLower(rune(b))\<close> for a byte \<open>b\<close>: the rune is below U+0100, where Go reads
  its Latin-1 property table; the lower-case letters there are a to z, U+00B5, U+00DF to
  U+00F6 and U+00F8 to U+00FF.
\<close>

definition IsLower :: "char \<Rightarrow> bool" where
  "IsLower c =
     (let n = (of_char c :: nat)
      in (97 \<le> n \<and> n \<le> 122) \<or> n = 181 \<or> (223 \<le> n \<and> n \<le> 246) \<or> (248 \<le> n \<and> n \<le> 255))"

subsection \<open>The data model\<close>

text \<open>
  The declarations of \<^verbatim>\<open>Field\<close>, \<^verbatim>\<open>Function\<close> and \<^verbatim>\<open>Struct\<close> are not in
  \<^verbatim>\<open>class_parser.go\<close>; their fields are the ones the file reads and writes
  (\<^verbatim>\<open>getOrCreateStruct\<close> initialises all six of \<^verbatim>\<open>Struct\<close>, \<^verbatim>\<open>Render\<close> reads the others).
\<close>

record Field =
  Field_Name :: string
  Field_Type :: string

record Function =
  Function_Name :: string
  Parameters :: "Field list"
  ReturnValues :: "string list"

record Struct =
  PackageName :: string
  Functions :: "Function list"
  Fields :: "Field list"
  Struct_Type :: string
  Composition :: "string list"
  Extends :: "string list"

record ClassParser =
  "structure" :: "(string \<times> (string \<times> Struct) list) list"
  currentPackageName :: string
  allInterfaces :: "string list"
  allStructs :: "string list"

subsection \<open>\<^verbatim>\<open>LineStringBuilder\<close>\<close>

definition tab :: string where
  "tab = ''    ''"

definition WriteLineWithDepth :: "string \<Rightarrow> nat \<Rightarrow> string \<Rightarrow> string" where
  "WriteLineWithDepth lsb depth str = lsb @ concat (replicate depth tab) @ str @ ''\<newline>''"

subsection \<open>\<^verbatim>\<open>Render\<close>\<close>

text \<open>Lines 177 to 187: the fields of one structure, into the private and public builders.\<close>

fun fieldsLoop :: "Field list \<Rightarrow> string \<times> string \<Rightarrow> panic + string \<times> string" where
  "fieldsLoop [] acc = Inr acc"
| "fieldsLoop (field # fs) (privateFields, publicFields) =
     (case Field_Name field of
        [] \<Rightarrow> Inl IndexOutOfRange
      | c # _ \<Rightarrow>
          (let accessModifier = (if IsLower c then ''-'' else ''+'');
               line = accessModifier @ '' '' @ Field_Name field @ '' '' @ Field_Type field
           in if accessModifier = ''-''
              then fieldsLoop fs (WriteLineWithDepth privateFields 2 line, publicFields)
              else fieldsLoop fs (privateFields, WriteLineWithDepth publicFields 2 line)))"

text \<open>Lines 188 to 193 and 194 to 199: one edge line for each stored reference.\<close>

definition compositionLoop :: "Struct \<Rightarrow> string \<Rightarrow> string \<Rightarrow> string \<Rightarrow> string" where
  "compositionLoop st pack name composition =
     foldl (\<lambda>b c.
        (let c' = (if \<not> Contains c ''.'' then PackageName st @ ''.'' @ c else c)
         in WriteLineWithDepth b 0 (c' @ '' *-- '' @ pack @ ''.'' @ name)))
       composition (Composition st)"

definition extendsLoop :: "Struct \<Rightarrow> string \<Rightarrow> string \<Rightarrow> string \<Rightarrow> string" where
  "extendsLoop st pack name extends =
     foldl (\<lambda>b c.
        (let c' = (if \<not> Contains c ''.'' then PackageName st @ ''.'' @ c else c)
         in WriteLineWithDepth b 0 (c' @ '' <|-- '' @ pack @ ''.'' @ name)))
       extends (Extends st)"

text \<open>Lines 200 to 218: the methods of one structure.\<close>

fun methodsLoop :: "Function list \<Rightarrow> string \<times> string \<Rightarrow> panic + string \<times> string" where
  "methodsLoop [] acc = Inr acc"
| "methodsLoop (method # ms) (privateMethods, publicMethods) =
     (case Function_Name method of
        [] \<Rightarrow> Inl IndexOutOfRange
      | c # _ \<Rightarrow>
          (let accessModifier = (if IsLower c then ''-'' else ''+'');
               parameterList = map (\<lambda>p. Field_Name p @ '' '' @ Field_Type p) (Parameters method);
               returnValues =
                 (if length (ReturnValues method) > 1
                  then ''('' @ Join (ReturnValues method) '', '' @ '')''
                  else '''');
               line = accessModifier @ '' '' @ Function_Name method @ ''('' @
                      Join parameterList '', '' @ '') '' @ returnValues
           in if accessModifier = ''-''
              then methodsLoop ms (WriteLineWithDepth privateMethods 2 line, publicMethods)
              else methodsLoop ms (privateMethods, WriteLineWithDepth publicMethods 2 line)))"

text \<open>
  Lines 171 to 232: the structures of one package. The state is the document builder
  \<open>str\<close> and the two edge builders of the package.
\<close>

fun structuresLoop ::
  "string \<Rightarrow> (string \<times> Struct) list \<Rightarrow> string \<times> string \<times> string \<Rightarrow>
   panic + string \<times> string \<times> string" where
  "structuresLoop pack [] acc = Inr acc"
| "structuresLoop pack ((name, st) # rest) (str, composition, extends) =
     (let str1 = WriteLineWithDepth str 1 (Struct_Type st @ '' '' @ name @ '' {'')
      in case fieldsLoop (Fields st) ([], []) of
           Inl e \<Rightarrow> Inl e
         | Inr (privateFields, publicFields) \<Rightarrow>
             (let composition' = compositionLoop st pack name composition;
                  extends' = extendsLoop st pack name extends
              in case methodsLoop (Functions st) ([], []) of
                   Inl e \<Rightarrow> Inl e
                 | Inr (privateMethods, publicMethods) \<Rightarrow>
                     (let str2 = (if length privateFields > 0
                                  then WriteLineWithDepth str1 0 privateFields else str1);
                          str3 = (if length publicFields > 0
                                  then WriteLineWithDepth str2 0 publicFields else str2);
                          str4 = (if length privateMethods > 0
                                  then WriteLineWithDepth str3 0 privateMethods else str3);
                          str5 = (if length publicMethods > 0
                                  then WriteLineWithDepth str4 0 publicMethods else str4)
                      in structuresLoop pack rest
                           (WriteLineWithDepth str5 1 ''}'', composition', extends'))))"

text \<open>Lines 166 to 238: the packages.\<close>

fun packagesLoop :: "(string \<times> (string \<times> Struct) list) list \<Rightarrow> string \<Rightarrow> panic + string" where
  "packagesLoop [] str = Inr str"
| "packagesLoop ((pack, structures) # rest) str =
     (if length structures > 0
      then (case structuresLoop pack structures
                   (WriteLineWithDepth str 0 (''namespace '' @ pack @ '' {''), [], []) of
              Inl e \<Rightarrow> Inl e
            | Inr (str1, composition, extends) \<Rightarrow>
                packagesLoop rest
                  (WriteLineWithDepth
                     (WriteLineWithDepth (WriteLineWithDepth str1 0 ''}'') 0 composition)
                     0 extends))
      else packagesLoop rest str)"

definition Render :: "ClassParser \<Rightarrow> panic + string" where
  "Render p =
     (case packagesLoop (structure p) (WriteLineWithDepth [] 0 ''@startuml'') of
        Inl e \<Rightarrow> Inl e
      | Inr str \<Rightarrow> Inr (str @ ''@enduml''))"

subsection \<open>The declaration tree of the external parser\<close>

text \<open>
  What \<^verbatim>\<open>go/parser\<close> hands over, as far as the code looks at it. A type expression that
  is neither a struct, an interface nor a function type is \<open>OtherExpr\<close>, carrying the
  expression; the code only passes it on to \<^verbatim>\<open>getFieldType\<close>. \<^verbatim>\<open>getFieldType\<close> is not in
  \<^verbatim>\<open>class_parser.go\<close>: every function that calls it takes it as its first argument, so
  the theorems hold whatever text it returns.
\<close>

datatype Expr =
    StructType "AstField list"
  | InterfaceType "AstField list"
  | FuncType "AstField list" "AstField list"
  | OtherExpr string
and AstField = AstField (Names: "string list") (Type: Expr)

datatype Spec = TypeSpec string Expr | ImportSpec | ValueSpec

datatype Decl = GenDecl "Spec list" | FuncDecl "AstField list option" string Expr | BadDecl

record File =
  Decls :: "Decl list"

record Package =
  Name :: string
  Files :: "(string \<times> File) list"

subsection \<open>The methods of \<^verbatim>\<open>Struct\<close>\<close>

text \<open>
  Modelled from the spec: \<^verbatim>\<open>AddToComposition\<close> and \<^verbatim>\<open>AddToExtends\<close> are not in
  \<^verbatim>\<open>class_parser.go\<close>. The spec has them append the reference to the composition and
  extends sets of the type (\<^verbatim>\<open>[]string\<close> in \<^verbatim>\<open>getOrCreateStruct\<close>).
\<close>

definition AddToComposition :: "Struct \<Rightarrow> string \<Rightarrow> Struct" where
  "AddToComposition st fType = st\<lparr>Composition := Composition st @ [fType]\<rparr>"

definition AddToExtends :: "Struct \<Rightarrow> string \<Rightarrow> Struct" where
  "AddToExtends st fType = st\<lparr>Extends := Extends st @ [fType]\<rparr>"

text \<open>
  Modelled from the spec: \<^verbatim>\<open>AddField\<close> is not in \<^verbatim>\<open>class_parser.go\<close>. A named member
  appends a Field (name, type expression text); an anonymous one appends the referenced
  type to the composition set instead.
\<close>

definition AddField :: "(Expr \<Rightarrow> string \<Rightarrow> string) \<Rightarrow> Struct \<Rightarrow> AstField \<Rightarrow> Struct" where
  "AddField getFieldType st field =
     (case Names field of
        [] \<Rightarrow> AddToComposition st (getFieldType (Type field) '''')
      | n # _ \<Rightarrow>
          st\<lparr>Fields := Fields st @
               [\<lparr>Field_Name = n, Field_Type = getFieldType (Type field) ''''\<rparr>]\<rparr>)"

text \<open>
  Modelled from the spec: \<^verbatim>\<open>AddMethod\<close> and the construction of a \<^verbatim>\<open>Function\<close> are not in
  \<^verbatim>\<open>class_parser.go\<close>. A method has a name, the ordered sequence of its parameters (name,
  type text) and the ordered sequence of its return type texts; one method is appended for
  each member signature, and a member that is no signature adds nothing.
\<close>

definition getFunction ::
  "(Expr \<Rightarrow> string \<Rightarrow> string) \<Rightarrow> string \<Rightarrow> AstField list \<Rightarrow> AstField list \<Rightarrow> Function" where
  "getFunction getFieldType name params results =
     \<lparr>Function_Name = name,
      Parameters = concat (map (\<lambda>pa.
        (case Names pa of
           [] \<Rightarrow> [\<lparr>Field_Name = '''', Field_Type = getFieldType (Type pa) ''''\<rparr>]
         | ns \<Rightarrow> map (\<lambda>n. \<lparr>Field_Name = n, Field_Type = getFieldType (Type pa) ''''\<rparr>) ns))
        params),
      ReturnValues = map (\<lambda>r. getFieldType (Type r) '''') results\<rparr>"

definition AddMethod :: "(Expr \<Rightarrow> string \<Rightarrow> string) \<Rightarrow> Struct \<Rightarrow> AstField \<Rightarrow> Struct" where
  "AddMethod getFieldType st method =
     (case Type method of
        FuncType params results \<Rightarrow>
          (case Names method of
             [] \<Rightarrow> st
           | n # _ \<Rightarrow> st\<lparr>Functions := Functions st @ [getFunction getFieldType n params results]\<rparr>)
      | _ \<Rightarrow> st)"

text \<open>
  Modelled from the spec: \<^verbatim>\<open>ImplementsInterface\<close> is not in \<^verbatim>\<open>class_parser.go\<close>. A type
  implements an interface iff for every method declared on the interface it has a method
  with identical name, identical ordered parameter type sequence and identical ordered
  return type sequence, compared as text.
\<close>

definition SignaturesAreEqual :: "Function \<Rightarrow> Function \<Rightarrow> bool" where
  "SignaturesAreEqual f g =
     (Function_Name f = Function_Name g \<and>
      map Field_Type (Parameters f) = map Field_Type (Parameters g) \<and>
      ReturnValues f = ReturnValues g)"

definition ImplementsInterface :: "Struct \<Rightarrow> Struct \<Rightarrow> bool" where
  "ImplementsInterface st iface =
     list_all (\<lambda>m. list_ex (\<lambda>f. SignaturesAreEqual m f) (Functions st)) (Functions iface)"

subsection \<open>Pointers into the structure table\<close>

text \<open>
  A \<^verbatim>\<open>*Struct\<close> is the pair (package, name) under which the object is stored:
  \<open>lookupStruct\<close> reads through the pointer and \<open>updateStruct\<close> writes through it.
\<close>

definition lookupStruct :: "ClassParser \<Rightarrow> string \<times> string \<Rightarrow> Struct option" where
  "lookupStruct p ptr =
     (case map_of (structure p) (fst ptr) of
        None \<Rightarrow> None
      | Some pack \<Rightarrow> map_of pack (snd ptr))"

definition updateStruct :: "string \<times> string \<Rightarrow> (Struct \<Rightarrow> Struct) \<Rightarrow> ClassParser \<Rightarrow> ClassParser" where
  "updateStruct ptr f p =
     (case map_of (structure p) (fst ptr) of
        None \<Rightarrow> p
      | Some pack \<Rightarrow>
          (case map_of pack (snd ptr) of
             None \<Rightarrow> p
           | Some st \<Rightarrow>
               p\<lparr>structure := AList.update (fst ptr) (AList.update (snd ptr) (f st) pack)
                                (structure p)\<rparr>))"

subsection \<open>\<^verbatim>\<open>getOrCreateStruct\<close> and \<^verbatim>\<open>getStruct\<close>\<close>

text \<open>
  Lines 244 to 258. Reading a missing package yields the zero value; storing into it is
  a write to a nil map.
\<close>

definition getOrCreateStruct :: "ClassParser \<Rightarrow> string \<Rightarrow> panic + ClassParser \<times> (string \<times> string)" where
  "getOrCreateStruct p name =
     (case map_of (structure p) (currentPackageName p) of
        None \<Rightarrow> Inl NilMapAssignment
      | Some pack \<Rightarrow>
          (case map_of pack name of
             Some result \<Rightarrow> Inr (p, (currentPackageName p, name))
           | None \<Rightarrow>
               Inr (p\<lparr>structure :=
                        AList.update (currentPackageName p)
                          (AList.update name
                             \<lparr>PackageName = currentPackageName p, Functions = [], Fields = [],
                              Struct_Type = '''', Composition = [], Extends = []\<rparr> pack)
                          (structure p)\<rparr>,
                    (currentPackageName p, name))))"

text \<open>Lines 261 to 268; \<open>None\<close> is the nil pointer.\<close>

definition getStruct :: "ClassParser \<Rightarrow> string \<Rightarrow> panic + (string \<times> string) option" where
  "getStruct p structName =
     (case SplitN_dot_2 structName of
        [] \<Rightarrow> Inl IndexOutOfRange
      | s0 # others \<Rightarrow>
          (case map_of (structure p) s0 of
             None \<Rightarrow> Inr None
           | Some pack \<Rightarrow>
               (case others of
                  [] \<Rightarrow> Inl IndexOutOfRange
                | s1 # _ \<Rightarrow>
                    (case map_of pack s1 of
                       None \<Rightarrow> Inr None
                     | Some _ \<Rightarrow> Inr (Some (s0, s1))))))"

subsection \<open>\<^verbatim>\<open>parseFileDeclarations\<close>\<close>

text \<open>Lines 110 to 112 and 116 to 118.\<close>

fun addFieldsLoop ::
  "(Expr \<Rightarrow> string \<Rightarrow> string) \<Rightarrow> string \<Rightarrow> AstField list \<Rightarrow> ClassParser \<Rightarrow> panic + ClassParser" where
  "addFieldsLoop getFieldType typeName [] p = Inr p"
| "addFieldsLoop getFieldType typeName (f # fs) p =
     (case getOrCreateStruct p typeName of
        Inl e \<Rightarrow> Inl e
      | Inr (p1, ptr) \<Rightarrow>
          addFieldsLoop getFieldType typeName fs
            (updateStruct ptr (\<lambda>st. AddField getFieldType st f) p1))"

fun addMethodsLoop ::
  "(Expr \<Rightarrow> string \<Rightarrow> string) \<Rightarrow> string \<Rightarrow> AstField list \<Rightarrow> ClassParser \<Rightarrow> panic + ClassParser" where
  "addMethodsLoop getFieldType typeName [] p = Inr p"
| "addMethodsLoop getFieldType typeName (f # fs) p =
     (case getOrCreateStruct p typeName of
        Inl e \<Rightarrow> Inl e
      | Inr (p1, ptr) \<Rightarrow>
          addMethodsLoop getFieldType typeName fs
            (updateStruct ptr (\<lambda>st. AddMethod getFieldType st f) p1))"

text \<open>Lines 128 to 137, which both kinds of type declaration reach.\<close>

definition setDeclarationType :: "ClassParser \<Rightarrow> string \<Rightarrow> string \<Rightarrow> panic + ClassParser" where
  "setDeclarationType p typeName declarationType =
     (case getOrCreateStruct p typeName of
        Inl e \<Rightarrow> Inl e
      | Inr (p1, ptr) \<Rightarrow>
          (let p2 = updateStruct ptr (\<lambda>st. st\<lparr>Struct_Type := declarationType\<rparr>) p1;
               fullName = currentPackageName p2 @ ''.'' @ typeName
           in if declarationType = ''interface''
              then Inr (p2\<lparr>allInterfaces := List.insert fullName (allInterfaces p2)\<rparr>)
              else if declarationType = ''class''
              then Inr (p2\<lparr>allStructs := List.insert fullName (allStructs p2)\<rparr>)
              else Inr p2))"

text \<open>Lines 98 to 160.\<close>

definition parseFileDeclarations ::
  "(Expr \<Rightarrow> string \<Rightarrow> string) \<Rightarrow> ClassParser \<Rightarrow> Decl \<Rightarrow> panic + ClassParser" where
  "parseFileDeclarations getFieldType p node =
     (case node of
        GenDecl specs \<Rightarrow>
          (case specs of
             [] \<Rightarrow> Inl IndexOutOfRange
           | spec # _ \<Rightarrow>
               (case spec of
                  TypeSpec typeName ty \<Rightarrow>
                    (case ty of
                       StructType fieldList \<Rightarrow>
                         (case addFieldsLoop getFieldType typeName fieldList p of
                            Inl e \<Rightarrow> Inl e
                          | Inr p1 \<Rightarrow> setDeclarationType p1 typeName ''class'')
                     | InterfaceType methods \<Rightarrow>
                         (case addMethodsLoop getFieldType typeName methods p of
                            Inl e \<Rightarrow> Inl e
                          | Inr p1 \<Rightarrow> setDeclarationType p1 typeName ''interface'')
                     | _ \<Rightarrow> Inr p)
                | _ \<Rightarrow> Inr p))
      | FuncDecl recv name ty \<Rightarrow>
          (case recv of
             None \<Rightarrow> Inr p
           | Some recvList \<Rightarrow>
               (case recvList of
                  [] \<Rightarrow> Inl IndexOutOfRange
                | r # _ \<Rightarrow>
                    (case getFieldType (Type r) '''' of
                       [] \<Rightarrow> Inl IndexOutOfRange
                     | c # cs \<Rightarrow>
                         (let theType = (if c = CHR ''*'' then cs else c # cs)
                          in case getOrCreateStruct p theType of
                               Inl e \<Rightarrow> Inl e
                             | Inr (p1, ptr) \<Rightarrow>
                                 (let p2 = updateStruct ptr
                                             (\<lambda>st. if Struct_Type st = ''''
                                                   then st\<lparr>Struct_Type := ''class''\<rparr> else st) p1
                                  in Inr (updateStruct ptr
                                            (\<lambda>st. AddMethod getFieldType st (AstField [name] ty))
                                            p2))))))
      | BadDecl \<Rightarrow> Inr p)"

subsection \<open>\<^verbatim>\<open>parsePackage\<close>\<close>

text \<open>Lines 88 to 94; the files of a package come in the order the map yields them.\<close>

fun declsLoop ::
  "(Expr \<Rightarrow> string \<Rightarrow> string) \<Rightarrow> Decl list \<Rightarrow> ClassParser \<Rightarrow> panic + ClassParser" where
  "declsLoop getFieldType [] p = Inr p"
| "declsLoop getFieldType (d # ds) p =
     (case parseFileDeclarations getFieldType p d of
        Inl e \<Rightarrow> Inl e
      | Inr p1 \<Rightarrow> declsLoop getFieldType ds p1)"

fun filesLoop ::
  "(Expr \<Rightarrow> string \<Rightarrow> string) \<Rightarrow> (string \<times> File) list \<Rightarrow> ClassParser \<Rightarrow> panic + ClassParser" where
  "filesLoop getFieldType [] p = Inr p"
| "filesLoop getFieldType ((fileName, f) # fs) p =
     (if \<not> HasSuffix fileName ''_test.go''
      then (case declsLoop getFieldType (Decls f) p of
              Inl e \<Rightarrow> Inl e
            | Inr p1 \<Rightarrow> filesLoop getFieldType fs p1)
      else filesLoop getFieldType fs p)"

definition parsePackage ::
  "(Expr \<Rightarrow> string \<Rightarrow> string) \<Rightarrow> ClassParser \<Rightarrow> Package \<Rightarrow> panic + ClassParser" where
  "parsePackage getFieldType p pack =
     (let p1 = p\<lparr>currentPackageName := Name pack\<rparr>;
          p2 = (case map_of (structure p1) (currentPackageName p1) of
                  None \<Rightarrow> p1\<lparr>structure := AList.update (currentPackageName p1) [] (structure p1)\<rparr>
                | Some _ \<Rightarrow> p1)
      in filesLoop getFieldType (Files pack) p2)"

subsection \<open>\<^verbatim>\<open>NewClassDiagram\<close>\<close>

text \<open>Lines 63 to 65.\<close>

fun parsePackagesLoop ::
  "(Expr \<Rightarrow> string \<Rightarrow> string) \<Rightarrow> Package list \<Rightarrow> ClassParser \<Rightarrow> panic + ClassParser" where
  "parsePackagesLoop getFieldType [] p = Inr p"
| "parsePackagesLoop getFieldType (v # vs) p =
     (case parsePackage getFieldType p v of
        Inl e \<Rightarrow> Inl e
      | Inr p1 \<Rightarrow> parsePackagesLoop getFieldType vs p1)"

text \<open>
  Lines 66 to 76. \<^verbatim>\<open>ImplementsInterface\<close> reads its receiver and its argument, so a nil
  pointer there is a nil dereference.
\<close>

fun interfacesLoop :: "string \<times> string \<Rightarrow> string list \<Rightarrow> ClassParser \<Rightarrow> panic + ClassParser" where
  "interfacesLoop st [] p = Inr p"
| "interfacesLoop st (i # rest) p =
     (case getStruct p i of
        Inl e \<Rightarrow> Inl e
      | Inr None \<Rightarrow> Inl NilDereference
      | Inr (Some iface) \<Rightarrow>
          (case lookupStruct p st of
             None \<Rightarrow> Inl NilDereference
           | Some s \<Rightarrow>
               (case lookupStruct p iface of
                  None \<Rightarrow> Inl NilDereference
                | Some it \<Rightarrow>
                    interfacesLoop st rest
                      (if ImplementsInterface s it
                       then updateStruct st (\<lambda>x. AddToExtends x i) p else p))))"

fun structsLoop :: "string list \<Rightarrow> ClassParser \<Rightarrow> panic + ClassParser" where
  "structsLoop [] p = Inr p"
| "structsLoop (s # ss) p =
     (case getStruct p s of
        Inl e \<Rightarrow> Inl e
      | Inr None \<Rightarrow> structsLoop ss p
      | Inr (Some st) \<Rightarrow>
          (case interfacesLoop st (allInterfaces p) p of
             Inl e \<Rightarrow> Inl e
           | Inr p1 \<Rightarrow> structsLoop ss p1))"

text \<open>
  Lines 52 to 78. The external parser \<^verbatim>\<open>parser.ParseDir\<close> is the argument \<open>ParseDir\<close>; it
  returns an error or the packages of the directory. The result is a panic, or the pair
  that the Go function returns.
\<close>

definition NewClassDiagram ::
  "(Expr \<Rightarrow> string \<Rightarrow> string) \<Rightarrow> (string \<Rightarrow> 'e + Package list) \<Rightarrow> string \<Rightarrow>
   panic + ClassParser option \<times> 'e option" where
  "NewClassDiagram getFieldType ParseDir directoryPath =
     (let classParser = \<lparr>structure = [], currentPackageName = '''',
                         allInterfaces = [], allStructs = []\<rparr>
      in case ParseDir directoryPath of
           Inl err \<Rightarrow> Inr (None, Some err)
         | Inr result \<Rightarrow>
             (case parsePackagesLoop getFieldType result classParser of
                Inl e \<Rightarrow> Inl e
              | Inr p \<Rightarrow>
                  (case structsLoop (allStructs p) p of
                     Inl e \<Rightarrow> Inl e
                   | Inr p1 \<Rightarrow> Inr (Some p1, None))))"

subsection \<open>What the document consists of\<close>

text \<open>
  The closed forms that the theorems compare the loops of \<open>Render\<close> with. A model is
  well formed when no field and no method has an empty name.
\<close>

definition namesNonEmpty :: "Struct \<Rightarrow> bool" where
  "namesNonEmpty st =
     (list_all (\<lambda>f. Field_Name f \<noteq> []) (Fields st) \<and>
      list_all (\<lambda>m. Function_Name m \<noteq> []) (Functions st))"

definition wellFormed :: "ClassParser \<Rightarrow> bool" where
  "wellFormed p =
     list_all (\<lambda>(pack, structures). list_all (\<lambda>(name, st). namesNonEmpty st) structures)
       (structure p)"

text \<open>
  A group of member lines is followed by an empty line, and left out when it is empty; a
  type declaration is the line of its kind and name, its four groups and the closing line.
\<close>

definition memberGroup :: "string \<Rightarrow> string" where
  "memberGroup g = (if g = [] then [] else g @ ''\<newline>'')"

definition typeDeclaration :: "string \<Rightarrow> Struct \<Rightarrow> panic + string" where
  "typeDeclaration name st =
     (case fieldsLoop (Fields st) ([], []) of
        Inl e \<Rightarrow> Inl e
      | Inr (privateFields, publicFields) \<Rightarrow>
          (case methodsLoop (Functions st) ([], []) of
             Inl e \<Rightarrow> Inl e
           | Inr (privateMethods, publicMethods) \<Rightarrow>
               Inr (tab @ Struct_Type st @ '' '' @ name @ '' {\<newline>'' @
                    memberGroup privateFields @ memberGroup publicFields @
                    memberGroup privateMethods @ memberGroup publicMethods @
                    tab @ ''}\<newline>'')))"

text \<open>The edge lines of one type: the source of an edge, the arrow, the owning type.\<close>

definition compositionLines :: "Struct \<Rightarrow> string \<Rightarrow> string \<Rightarrow> string" where
  "compositionLines st pack name =
     concat (map (\<lambda>c. (if CHR ''.'' \<in> set c then c else PackageName st @ ''.'' @ c) @
                       '' *-- '' @ pack @ ''.'' @ name @ ''\<newline>'') (Composition st))"

definition extendsLines :: "Struct \<Rightarrow> string \<Rightarrow> string \<Rightarrow> string" where
  "extendsLines st pack name =
     concat (map (\<lambda>c. (if CHR ''.'' \<in> set c then c else PackageName st @ ''.'' @ c) @
                       '' <|-- '' @ pack @ ''.'' @ name @ ''\<newline>'') (Extends st))"

text \<open>The lines of a document, and the position of the first line equal to a given one.\<close>

definition splitLines :: "string \<Rightarrow> string list" where
  "splitLines s =
     foldr (\<lambda>c ls. if c = CHR ''\<newline>'' then [] # ls
                     else (case ls of [] \<Rightarrow> [[c]] | l # rest \<Rightarrow> (c # l) # rest))
       s [[]]"

definition lineIndex :: "string \<Rightarrow> string list \<Rightarrow> nat" where
  "lineIndex l ls = length (takeWhile (\<lambda>x. x \<noteq> l) ls)"

subsection \<open>What a declaration does to the model\<close>

text \<open>
  The closed forms that the theorems compare \<open>parseFileDeclarations\<close> with: the object
  that \<^verbatim>\<open>getOrCreateStruct\<close> hands out (the stored one, or a new one whose kind is still
  empty), the kind that a type declaration declares, the type that a method declaration
  names as its receiver, and the type and the change that a declaration is about.
\<close>

definition freshStruct :: "string \<Rightarrow> Struct" where
  "freshStruct pk =
     \<lparr>PackageName = pk, Functions = [], Fields = [], Struct_Type = '''',
      Composition = [], Extends = []\<rparr>"

definition structOrFresh :: "ClassParser \<Rightarrow> string \<Rightarrow> Struct" where
  "structOrFresh p name =
     (case lookupStruct p (currentPackageName p, name) of
        None \<Rightarrow> freshStruct (currentPackageName p)
      | Some st \<Rightarrow> st)"

definition declaredKind :: "Decl \<Rightarrow> (string \<times> string) option" where
  "declaredKind d =
     (case d of
        GenDecl (TypeSpec typeName (StructType _) # _) \<Rightarrow> Some (typeName, ''class'')
      | GenDecl (TypeSpec typeName (InterfaceType _) # _) \<Rightarrow> Some (typeName, ''interface'')
      | _ \<Rightarrow> None)"

definition receiverType :: "(Expr \<Rightarrow> string \<Rightarrow> string) \<Rightarrow> Decl \<Rightarrow> string option" where
  "receiverType getFieldType d =
     (case d of
        FuncDecl (Some (r # _)) _ _ \<Rightarrow>
          (case getFieldType (Type r) '''' of
             [] \<Rightarrow> None
           | c # cs \<Rightarrow> Some (if c = CHR ''*'' then cs else c # cs))
      | _ \<Rightarrow> None)"

definition declEffect ::
  "(Expr \<Rightarrow> string \<Rightarrow> string) \<Rightarrow> Decl \<Rightarrow> (string \<times> (Struct \<Rightarrow> Struct)) option" where
  "declEffect getFieldType d =
     (case d of
        GenDecl (TypeSpec typeName (StructType fieldList) # _) \<Rightarrow>
          Some (typeName, \<lambda>st. (foldl (AddField getFieldType) st fieldList)\<lparr>Struct_Type := ''class''\<rparr>)
      | GenDecl (TypeSpec typeName (InterfaceType methods) # _) \<Rightarrow>
          Some (typeName,
                \<lambda>st. (foldl (AddMethod getFieldType) st methods)\<lparr>Struct_Type := ''interface''\<rparr>)
      | FuncDecl (Some (r # _)) name ty \<Rightarrow>
          (case getFieldType (Type r) '''' of
             [] \<Rightarrow> None
           | c # cs \<Rightarrow>
               Some (if c = CHR ''*'' then cs else c # cs,
                     \<lambda>st. AddMethod getFieldType
                            (if Struct_Type st = '''' then st\<lparr>Struct_Type := ''class''\<rparr> else st)
                            (AstField [name] ty)))
      | _ \<Rightarrow> None)"

text \<open>Lines 83 to 87: \<^verbatim>\<open>parsePackage\<close> before it reads the files.\<close>

definition packageEntered :: "ClassParser \<Rightarrow> string \<Rightarrow> ClassParser" where
  "packageEntered p name =
     (let p1 = p\<lparr>currentPackageName := name\<rparr>
      in case map_of (structure p1) (currentPackageName p1) of
           None \<Rightarrow> p1\<lparr>structure := AList.update (currentPackageName p1) [] (structure p1)\<rparr>
         | Some _ \<Rightarrow> p1)"

text \<open>
  A Go map has one entry for a key, and every type in the table has a kind once its
  declaration has been read.
\<close>

definition uniqueKeys :: "ClassParser \<Rightarrow> bool" where
  "uniqueKeys p =
     (distinct (map fst (structure p)) \<and>
      list_all (\<lambda>(pack, structures). distinct (map fst structures)) (structure p))"

definition kindsAssigned :: "ClassParser \<Rightarrow> bool" where
  "kindsAssigned p =
     list_all (\<lambda>(pack, structures).
        list_all (\<lambda>(name, st). Struct_Type st = ''class'' \<or> Struct_Type st = ''interface'')
          structures)
       (structure p)"

text \<open>
  What the resolution pass may change: it leaves the methods and the kind of every type
  as they are and only adds to its extends list. And what the resolution pass relies on:
  no package name contains a dot (they are Go identifiers), and every type of kind
  \<^verbatim>\<open>interface\<close> has its qualified name in \<^verbatim>\<open>allInterfaces\<close>.
\<close>

definition extendsGrown :: "Struct \<Rightarrow> Struct \<Rightarrow> bool" where
  "extendsGrown s s' =
     (Functions s' = Functions s \<and> Struct_Type s' = Struct_Type s \<and>
      set (Extends s) \<subseteq> set (Extends s'))"

definition sameButExtends :: "ClassParser \<Rightarrow> ClassParser \<Rightarrow> bool" where
  "sameButExtends p p' =
     (allInterfaces p' = allInterfaces p \<and> allStructs p' = allStructs p \<and>
      map fst (structure p') = map fst (structure p) \<and>
      (\<forall>q. rel_option extendsGrown (lookupStruct p q) (lookupStruct p' q)))"

definition interfacesRegistered :: "ClassParser \<Rightarrow> bool" where
  "interfacesRegistered p =
     ((\<forall>pack \<in> fst ` set (structure p). CHR ''.'' \<notin> set pack) \<and>
      (\<forall>pack name st. lookupStruct p (pack, name) = Some st \<longrightarrow>
         Struct_Type st = ''interface'' \<longrightarrow> pack @ ''.'' @ name \<in> set (allInterfaces p)))"

subsection \<open>Concrete inputs\<close>

definition emptyModel :: ClassParser where
  "emptyModel = \<lparr>structure = [], currentPackageName = [], allInterfaces = [], allStructs = []\<rparr>"

definition carStruct :: Struct where
  "carStruct =
     \<lparr>PackageName = ''pkg'',
      Functions =
        [\<lparr>Function_Name = ''Speak'', Parameters = [], ReturnValues = [''string'']\<rparr>,
         \<lparr>Function_Name = ''doWork'',
          Parameters = [\<lparr>Field_Name = ''count'', Field_Type = ''int''\<rparr>],
          ReturnValues = [''int'', ''error'']\<rparr>],
      Fields = [\<lparr>Field_Name = ''bar'', Field_Type = ''string''\<rparr>,
                \<lparr>Field_Name = ''Name'', Field_Type = ''string''\<rparr>],
      Struct_Type = ''class'',
      Composition = [''Engine''],
      Extends = [''other.Speaker'']\<rparr>"

definition carModel :: ClassParser where
  "carModel =
     \<lparr>structure = [(''pkg'', [(''Car'', carStruct)])], currentPackageName = ''pkg'',
      allInterfaces = [], allStructs = [''pkg.Car'']\<rparr>"

definition carDeclaration :: string where
  "carDeclaration =
     ''    class Car {\<newline>        - bar string\<newline>\<newline>        + Name string\<newline>\<newline>        - doWork(count int) (int, error)\<newline>\<newline>        + Speak() \<newline>\<newline>    }\<newline>''"

definition carOutput :: string where
  "carOutput =
     ''@startuml\<newline>namespace pkg {\<newline>'' @ carDeclaration @
     ''}\<newline>pkg.Engine *-- pkg.Car\<newline>\<newline>other.Speaker <|-- pkg.Car\<newline>\<newline>@enduml''"

text \<open>
  A stand-in for \<^verbatim>\<open>getFieldType\<close> on the concrete inputs: the text of the expression.
\<close>

definition exprText :: "Expr \<Rightarrow> string \<Rightarrow> string" where
  "exprText e alias =
     (case e of
        OtherExpr s \<Rightarrow> s
      | StructType _ \<Rightarrow> ''struct{}''
      | InterfaceType _ \<Rightarrow> ''interface{}''
      | FuncType _ _ \<Rightarrow> ''func()'')"

text \<open>
  A package in which the type \<^verbatim>\<open>Conn\<close> is declared as a struct, declared as an
  interface, and given a method.
\<close>

definition pkgState :: ClassParser where
  "pkgState = \<lparr>structure = [(''pkg'', [])], currentPackageName = ''pkg'',
               allInterfaces = [], allStructs = []\<rparr>"

definition connStructDecl :: Decl where
  "connStructDecl = GenDecl [TypeSpec ''Conn'' (StructType [])]"

definition connInterfaceDecl :: Decl where
  "connInterfaceDecl = GenDecl [TypeSpec ''Conn'' (InterfaceType [])]"

definition connMethodDecl :: Decl where
  "connMethodDecl =
     FuncDecl (Some [AstField [''c''] (OtherExpr ''*Conn'')]) ''Close'' (FuncType [] [])"

definition connStruct :: "string \<Rightarrow> Function list \<Rightarrow> Struct" where
  "connStruct kind methods =
     \<lparr>PackageName = ''pkg'', Functions = methods, Fields = [], Struct_Type = kind,
      Composition = [], Extends = []\<rparr>"

definition connState :: "Struct \<Rightarrow> string list \<Rightarrow> ClassParser" where
  "connState st interfaces =
     \<lparr>structure = [(''pkg'', [(''Conn'', st)])], currentPackageName = ''pkg'',
      allInterfaces = interfaces, allStructs = [''pkg.Conn'']\<rparr>"

text \<open>
  A directory with one package: the interface \<^verbatim>\<open>Speaker\<close>, the struct \<^verbatim>\<open>Dog\<close> and the
  named type \<^verbatim>\<open>MyInt\<close>, both with the method \<^verbatim>\<open>Speak()\<close>; and the model that
  \<open>NewClassDiagram\<close> builds from it.
\<close>

definition speakerDecls :: "Decl list" where
  "speakerDecls =
     [GenDecl [TypeSpec ''Speaker''
        (InterfaceType [AstField [''Speak''] (FuncType [] [])])],
      GenDecl [TypeSpec ''Dog'' (StructType [AstField [''name''] (OtherExpr ''string'')])],
      FuncDecl (Some [AstField [''d''] (OtherExpr ''*Dog'')]) ''Speak'' (FuncType [] []),
      GenDecl [TypeSpec ''MyInt'' (OtherExpr ''int'')],
      FuncDecl (Some [AstField [''m''] (OtherExpr ''MyInt'')]) ''Speak'' (FuncType [] [])]"

definition speakerDir :: "string \<Rightarrow> string + Package list" where
  "speakerDir dir =
     (if dir = ''bad'' then Inl ''syntax error''
      else Inr [\<lparr>Name = ''pkg'', Files = [(''a.go'', \<lparr>Decls = speakerDecls\<rparr>)]\<rparr>])"

definition speakMethod :: Function where
  "speakMethod = \<lparr>Function_Name = ''Speak'', Parameters = [], ReturnValues = []\<rparr>"

definition speakerStruct :: Struct where
  "speakerStruct =
     \<lparr>PackageName = ''pkg'', Functions = [speakMethod], Fields = [],
      Struct_Type = ''interface'', Composition = [], Extends = []\<rparr>"

definition dogStruct :: Struct where
  "dogStruct =
     \<lparr>PackageName = ''pkg'', Functions = [speakMethod],
      Fields = [\<lparr>Field_Name = ''name'', Field_Type = ''string''\<rparr>],
      Struct_Type = ''class'', Composition = [], Extends = [''pkg.Speaker'']\<rparr>"

definition myIntStruct :: Struct where
  "myIntStruct =
     \<lparr>PackageName = ''pkg'', Functions = [speakMethod], Fields = [],
      Struct_Type = ''class'', Composition = [], Extends = []\<rparr>"

definition speakerModel :: ClassParser where
  "speakerModel =
     \<lparr>structure = [(''pkg'', [(''Speaker'', speakerStruct), (''Dog'', dogStruct),
                               (''MyInt'', myIntStruct)])],
      currentPackageName = ''pkg'', allInterfaces = [''pkg.Speaker''],
      allStructs = [''pkg.Dog'']\<rparr>"

section \<open>Properties of \<open>Render\<close>\<close>

subsection \<open>Library facts\<close>

lemma Contains_dot: "Contains c ''.'' = (CHR ''.'' \<in> set c)"
  by (induction c) auto

lemma char_eq_nat: "(c = d) = ((of_char c :: nat) = of_char d)"
  by (simp add: inj_eq [OF inj_of_char])

lemma IsLower_ascii:
  assumes "of_char c < (128::nat)"
  shows "IsLower c = (c \<in> set ''abcdefghijklmnopqrstuvwxyz'')"
proof -
  have "(c \<in> set ''abcdefghijklmnopqrstuvwxyz'') =
        (97 \<le> (of_char c :: nat) \<and> (of_char c :: nat) \<le> 122)"
    apply (simp only: set_simps insert_iff empty_iff char_eq_nat [of c])
    apply (simp del: of_char_eq_iff)
    apply arith
    done
  then show ?thesis using assms by (auto simp: IsLower_def Let_def)
qed

lemma foldl_lines: "foldl (\<lambda>b c. b @ f c) b cs = b @ concat (map f cs)"
  by (induction cs arbitrary: b) simp_all

subsection \<open>The loops succeed exactly on non-empty names\<close>

lemma fieldsLoop_total:
  "list_all (\<lambda>f. Field_Name f \<noteq> []) fs \<Longrightarrow> \<exists>r. fieldsLoop fs acc = Inr r"
proof (induction fs arbitrary: acc)
  case Nil
  show ?case by simp
next
  case (Cons f fs)
  obtain a b where acc: "acc = (a, b)" by (cases acc)
  from Cons.prems obtain c cs where n: "Field_Name f = c # cs"
    by (cases "Field_Name f") auto
  from Cons.prems have "list_all (\<lambda>f. Field_Name f \<noteq> []) fs" by simp
  from Cons.IH [OF this] show ?case
    by (simp add: acc n Let_def)
qed

lemma fieldsLoop_panics:
  "\<not> list_all (\<lambda>f. Field_Name f \<noteq> []) fs \<Longrightarrow> fieldsLoop fs acc = Inl IndexOutOfRange"
proof (induction fs arbitrary: acc)
  case Nil
  then show ?case by simp
next
  case (Cons f fs)
  obtain a b where acc: "acc = (a, b)" by (cases acc)
  show ?case
  proof (cases "Field_Name f")
    case Nil
    then show ?thesis by (simp add: acc)
  next
    case (Cons c cs)
    with Cons.prems have "\<not> list_all (\<lambda>f. Field_Name f \<noteq> []) fs" by simp
    from Cons.IH [OF this] show ?thesis
      by (simp add: acc Cons Let_def)
  qed
qed

lemma methodsLoop_total:
  "list_all (\<lambda>m. Function_Name m \<noteq> []) ms \<Longrightarrow> \<exists>r. methodsLoop ms acc = Inr r"
proof (induction ms arbitrary: acc)
  case Nil
  show ?case by simp
next
  case (Cons m ms)
  obtain a b where acc: "acc = (a, b)" by (cases acc)
  from Cons.prems obtain c cs where n: "Function_Name m = c # cs"
    by (cases "Function_Name m") auto
  from Cons.prems have "list_all (\<lambda>m. Function_Name m \<noteq> []) ms" by simp
  from Cons.IH [OF this] show ?case
    by (simp add: acc n Let_def)
qed

lemma methodsLoop_panics:
  "\<not> list_all (\<lambda>m. Function_Name m \<noteq> []) ms \<Longrightarrow> methodsLoop ms acc = Inl IndexOutOfRange"
proof (induction ms arbitrary: acc)
  case Nil
  then show ?case by simp
next
  case (Cons m ms)
  obtain a b where acc: "acc = (a, b)" by (cases acc)
  show ?case
  proof (cases "Function_Name m")
    case Nil
    then show ?thesis by (simp add: acc)
  next
    case (Cons c cs)
    with Cons.prems have "\<not> list_all (\<lambda>m. Function_Name m \<noteq> []) ms" by simp
    from Cons.IH [OF this] show ?thesis
      by (simp add: acc Cons Let_def)
  qed
qed

lemma structuresLoop_total:
  "list_all (\<lambda>(name, st). namesNonEmpty st) xs \<Longrightarrow> \<exists>r. structuresLoop pack xs acc = Inr r"
proof (induction xs arbitrary: acc)
  case Nil
  show ?case by (cases acc) auto
next
  case (Cons x xs)
  obtain name st where x: "x = (name, st)" by (cases x)
  obtain str co ex where acc: "acc = (str, co, ex)" by (cases acc) auto
  from Cons.prems x have ne: "namesNonEmpty st" and rest: "list_all (\<lambda>(name, st). namesNonEmpty st) xs"
    by simp_all
  from ne obtain fpriv fpub where f: "fieldsLoop (Fields st) ([], []) = Inr (fpriv, fpub)"
    using fieldsLoop_total [of "Fields st" "([], [])"] by (auto simp: namesNonEmpty_def)
  from ne obtain mpriv mpub where m: "methodsLoop (Functions st) ([], []) = Inr (mpriv, mpub)"
    using methodsLoop_total [of "Functions st" "([], [])"] by (auto simp: namesNonEmpty_def)
  show ?case
    using Cons.IH [OF rest] by (simp add: x acc f m Let_def)
qed

lemma structuresLoop_panics:
  "\<not> list_all (\<lambda>(name, st). namesNonEmpty st) xs \<Longrightarrow>
   structuresLoop pack xs acc = Inl IndexOutOfRange"
proof (induction xs arbitrary: acc)
  case Nil
  then show ?case by simp
next
  case (Cons x xs)
  obtain name st where x: "x = (name, st)" by (cases x)
  obtain str co ex where acc: "acc = (str, co, ex)" by (cases acc) auto
  show ?case
  proof (cases "list_all (\<lambda>f. Field_Name f \<noteq> []) (Fields st)")
    case False
    from fieldsLoop_panics [OF this] show ?thesis
      by (simp add: x acc Let_def)
  next
    case True
    note fl = this
    then obtain fpriv fpub where f: "fieldsLoop (Fields st) ([], []) = Inr (fpriv, fpub)"
      using fieldsLoop_total [of "Fields st" "([], [])"] by auto
    show ?thesis
    proof (cases "list_all (\<lambda>m. Function_Name m \<noteq> []) (Functions st)")
      case False
      from methodsLoop_panics [OF this] show ?thesis
        by (simp add: x acc f Let_def)
    next
      case True
      then obtain mpriv mpub where m: "methodsLoop (Functions st) ([], []) = Inr (mpriv, mpub)"
        using methodsLoop_total [of "Functions st" "([], [])"] by auto
      from True fl Cons.prems x have "\<not> list_all (\<lambda>(name, st). namesNonEmpty st) xs"
        by (simp add: namesNonEmpty_def)
      from Cons.IH [OF this] show ?thesis
        by (simp add: x acc f m Let_def)
    qed
  qed
qed

lemma packagesLoop_total:
  "list_all (\<lambda>(pack, structures). list_all (\<lambda>(name, st). namesNonEmpty st) structures) ps \<Longrightarrow>
   \<exists>r. packagesLoop ps str = Inr r"
proof (induction ps arbitrary: str)
  case Nil
  show ?case by simp
next
  case (Cons x ps)
  obtain pack structures where x: "x = (pack, structures)" by (cases x)
  from Cons.prems x have here: "list_all (\<lambda>(name, st). namesNonEmpty st) structures"
    and rest: "list_all (\<lambda>(pack, structures). list_all (\<lambda>(name, st). namesNonEmpty st) structures) ps"
    by simp_all
  from structuresLoop_total [OF here]
  obtain s c e where s: "structuresLoop pack structures
      (WriteLineWithDepth str 0 (''namespace '' @ pack @ '' {''), [], []) = Inr (s, c, e)"
    by (metis prod_cases3)
  show ?case
    using Cons.IH [OF rest] s by (simp add: x)
qed

lemma packagesLoop_panics:
  "\<not> list_all (\<lambda>(pack, structures). list_all (\<lambda>(name, st). namesNonEmpty st) structures) ps \<Longrightarrow>
   packagesLoop ps str = Inl IndexOutOfRange"
proof (induction ps arbitrary: str)
  case Nil
  then show ?case by simp
next
  case (Cons x ps)
  obtain pack structures where x: "x = (pack, structures)" by (cases x)
  show ?case
  proof (cases "list_all (\<lambda>(name, st). namesNonEmpty st) structures")
    case False
    then have "structures \<noteq> []" by auto
    with structuresLoop_panics [OF False, of pack] show ?thesis
      by (simp add: x)
  next
    case True
    from structuresLoop_total [OF True]
    obtain s c e where s: "structuresLoop pack structures
        (WriteLineWithDepth str 0 (''namespace '' @ pack @ '' {''), [], []) = Inr (s, c, e)"
      by (metis prod_cases3)
    from True Cons.prems x
    have "\<not> list_all (\<lambda>(pack, structures). list_all (\<lambda>(name, st). namesNonEmpty st) structures) ps"
      by simp
    from Cons.IH [OF this] s show ?thesis
      by (simp add: x)
  qed
qed

subsection \<open>The loops in closed form\<close>

lemma compositionLoop_lines:
  "compositionLoop st pack name composition = composition @ compositionLines st pack name"
proof -
  have step: "(let c' = (if \<not> Contains c ''.'' then PackageName st @ ''.'' @ c else c)
               in WriteLineWithDepth b 0 (c' @ '' *-- '' @ pack @ ''.'' @ name)) =
              b @ ((if CHR ''.'' \<in> set c then c else PackageName st @ ''.'' @ c) @
                   '' *-- '' @ pack @ ''.'' @ name @ ''\<newline>'')" for b c
    by (simp add: WriteLineWithDepth_def Contains_dot)
  show ?thesis
    by (simp only: compositionLoop_def step foldl_lines compositionLines_def)
qed

lemma extendsLoop_lines:
  "extendsLoop st pack name extends = extends @ extendsLines st pack name"
proof -
  have step: "(let c' = (if \<not> Contains c ''.'' then PackageName st @ ''.'' @ c else c)
               in WriteLineWithDepth b 0 (c' @ '' <|-- '' @ pack @ ''.'' @ name)) =
              b @ ((if CHR ''.'' \<in> set c then c else PackageName st @ ''.'' @ c) @
                   '' <|-- '' @ pack @ ''.'' @ name @ ''\<newline>'')" for b c
    by (simp add: WriteLineWithDepth_def Contains_dot)
  show ?thesis
    by (simp only: extendsLoop_def step foldl_lines extendsLines_def)
qed

lemma structuresLoop_step:
  "structuresLoop pack ((name, st) # rest) (str, composition, extends) =
     (case typeDeclaration name st of
        Inl e \<Rightarrow> Inl e
      | Inr d \<Rightarrow> structuresLoop pack rest
                  (str @ d, composition @ compositionLines st pack name,
                   extends @ extendsLines st pack name))"
  by (simp add: typeDeclaration_def compositionLoop_lines extendsLoop_lines Let_def
        WriteLineWithDepth_def memberGroup_def tab_def split: sum.split prod.split)

lemma structuresLoop_closed:
  "structuresLoop pack xs (str, composition, extends) = Inr (str', composition', extends') \<Longrightarrow>
   (\<exists>decls. list_all2 (\<lambda>(name, st) d. typeDeclaration name st = Inr d) xs decls \<and>
            str' = str @ concat decls) \<and>
   composition' = composition @ concat (map (\<lambda>(name, st). compositionLines st pack name) xs) \<and>
   extends' = extends @ concat (map (\<lambda>(name, st). extendsLines st pack name) xs)"
proof (induction xs arbitrary: str composition extends)
  case Nil
  then show ?case by simp
next
  case (Cons x xs)
  obtain name st where x: "x = (name, st)" by (cases x)
  from Cons.prems obtain d where d: "typeDeclaration name st = Inr d"
    and rest: "structuresLoop pack xs (str @ d, composition @ compositionLines st pack name,
                 extends @ extendsLines st pack name) = Inr (str', composition', extends')"
    by (simp only: x structuresLoop_step split: sum.splits) auto
  from Cons.IH [OF rest] obtain decls
    where ds: "list_all2 (\<lambda>(name, st) d. typeDeclaration name st = Inr d) xs decls"
      and s: "str' = (str @ d) @ concat decls"
      and c: "composition' = (composition @ compositionLines st pack name) @
                concat (map (\<lambda>(name, st). compositionLines st pack name) xs)"
      and e: "extends' = (extends @ extendsLines st pack name) @
                concat (map (\<lambda>(name, st). extendsLines st pack name) xs)"
    by blast
  from ds d have "list_all2 (\<lambda>(name, st) d. typeDeclaration name st = Inr d) (x # xs) (d # decls)"
    by (simp add: x)
  moreover have "str' = str @ concat (d # decls)" using s by simp
  ultimately show ?case using c e by (simp only: x) (auto simp del: list_all2_Cons)
qed

lemma packagesLoop_prefix: "packagesLoop ps str = Inr out \<Longrightarrow> prefix str out"
proof (induction ps arbitrary: str)
  case Nil
  then show ?case by simp
next
  case (Cons x ps)
  obtain pack structures where x: "x = (pack, structures)" by (cases x)
  show ?case
  proof (cases "structures = []")
    case True
    with Cons show ?thesis by (simp add: x)
  next
    case False
    with Cons.prems obtain s c e where
      sl: "structuresLoop pack structures
             (WriteLineWithDepth str 0 (''namespace '' @ pack @ '' {''), [], []) = Inr (s, c, e)"
      and r: "packagesLoop ps (WriteLineWithDepth
               (WriteLineWithDepth (WriteLineWithDepth s 0 ''}'') 0 c) 0 e) = Inr out"
      by (simp only: x) (auto split: sum.splits)
    from structuresLoop_closed [OF sl]
    have "prefix (WriteLineWithDepth str 0 (''namespace '' @ pack @ '' {'')) s" by auto
    then have "prefix str s" by (auto simp: WriteLineWithDepth_def prefix_def)
    moreover from Cons.IH [OF r]
    have "prefix s out" by (auto simp: WriteLineWithDepth_def prefix_def)
    ultimately show ?thesis by (rule prefix_order.trans)
  qed
qed

lemma WriteLineWithDepth_simps:
  "WriteLineWithDepth b 0 s = b @ s @ ''\<newline>''"
  "WriteLineWithDepth b 1 s = b @ tab @ s @ ''\<newline>''"
  "WriteLineWithDepth b (Suc 0) s = b @ tab @ s @ ''\<newline>''"
  "WriteLineWithDepth b 2 s = b @ tab @ tab @ s @ ''\<newline>''"
  by (simp_all add: WriteLineWithDepth_def numeral_2_eq_2)

lemma Render_carModel: "Render carModel = Inr carOutput"
  by (simp add: Render_def carModel_def carStruct_def carOutput_def carDeclaration_def
        WriteLineWithDepth_simps IsLower_def compositionLoop_def extendsLoop_def tab_def)

subsection \<open>Method lines\<close>

text \<open>
  Claim C3. A rendered method line shows the return types after the parameter list, in
  parentheses only when there is more than one. The code fills the return text only when
  there are two or more return values: the method \<^verbatim>\<open>Speak() string\<close> is rendered as
  \<^verbatim>\<open>+ Speak() \<close>, without its return type, while \<^verbatim>\<open>DoWork(count int) (int, error)\<close>
  is rendered in full.
\<close>

theorem single_return_value_dropped:
  "methodsLoop [\<lparr>Function_Name = ''Speak'', Parameters = [], ReturnValues = [''string'']\<rparr>]
     ([], []) = Inr ([], ''        + Speak() \<newline>'') \<and>
   methodsLoop [\<lparr>Function_Name = ''DoWork'',
                 Parameters = [\<lparr>Field_Name = ''count'', Field_Type = ''int''\<rparr>],
                 ReturnValues = [''int'', ''error'']\<rparr>]
     ([], []) = Inr ([], ''        + DoWork(count int) (int, error)\<newline>'')"
  by (simp add: IsLower_def WriteLineWithDepth_simps tab_def)

subsection \<open>Visibility markers\<close>

text \<open>
  A field named \<^verbatim>\<open>_id\<close> is marked \<^verbatim>\<open>+\<close>, and its first character is no upper-case
  letter: being public and beginning with an upper-case letter are not the same.
\<close>

theorem underscore_is_public_counterexample:
  "fieldsLoop [\<lparr>Field_Name = ''_id'', Field_Type = ''int''\<rparr>] ([], []) =
     Inr ([], ''        + _id int\<newline>'') \<and>
   CHR ''_'' \<notin> set ''ABCDEFGHIJKLMNOPQRSTUVWXYZ''"
  by (simp add: IsLower_def WriteLineWithDepth_simps tab_def)

text \<open>
  Claim C4, amended. For a field or a method whose name begins with an ASCII character,
  the line is written with the marker \<^verbatim>\<open>-\<close> into the private group iff that character
  is a lower-case letter a to z, and with the marker \<^verbatim>\<open>+\<close> into the public group
  otherwise, whatever else the character is.
\<close>

theorem visibility_marker_ascii:
  assumes "of_char c < (128::nat)"
  shows
    "fieldsLoop (\<lparr>Field_Name = c # cs, Field_Type = t\<rparr> # fs) (privateFields, publicFields) =
       (if c \<in> set ''abcdefghijklmnopqrstuvwxyz''
        then fieldsLoop fs
               (privateFields @ tab @ tab @ ''- '' @ (c # cs) @ '' '' @ t @ ''\<newline>'', publicFields)
        else fieldsLoop fs
               (privateFields, publicFields @ tab @ tab @ ''+ '' @ (c # cs) @ '' '' @ t @ ''\<newline>'')) \<and>
     methodsLoop (\<lparr>Function_Name = c # cs, Parameters = ps, ReturnValues = rs\<rparr> # ms)
         (privateMethods, publicMethods) =
       (let signature = (c # cs) @ ''('' @
              Join (map (\<lambda>p. Field_Name p @ '' '' @ Field_Type p) ps) '', '' @ '') '' @
              (if length rs > 1 then ''('' @ Join rs '', '' @ '')'' else '''')
        in if c \<in> set ''abcdefghijklmnopqrstuvwxyz''
           then methodsLoop ms
                  (privateMethods @ tab @ tab @ ''- '' @ signature @ ''\<newline>'', publicMethods)
           else methodsLoop ms
                  (privateMethods, publicMethods @ tab @ tab @ ''+ '' @ signature @ ''\<newline>''))"
proof -
  note low = IsLower_ascii [OF assms]
  have f: "fieldsLoop (\<lparr>Field_Name = c # cs, Field_Type = t\<rparr> # fs) (privateFields, publicFields) =
       (if c \<in> set ''abcdefghijklmnopqrstuvwxyz''
        then fieldsLoop fs
               (privateFields @ tab @ tab @ ''- '' @ (c # cs) @ '' '' @ t @ ''\<newline>'', publicFields)
        else fieldsLoop fs
               (privateFields, publicFields @ tab @ tab @ ''+ '' @ (c # cs) @ '' '' @ t @ ''\<newline>''))"
    by (simp add: low WriteLineWithDepth_simps del: set_simps)
  have m: "methodsLoop (\<lparr>Function_Name = c # cs, Parameters = ps, ReturnValues = rs\<rparr> # ms)
         (privateMethods, publicMethods) =
       (let signature = (c # cs) @ ''('' @
              Join (map (\<lambda>p. Field_Name p @ '' '' @ Field_Type p) ps) '', '' @ '') '' @
              (if length rs > 1 then ''('' @ Join rs '', '' @ '')'' else '''')
        in if c \<in> set ''abcdefghijklmnopqrstuvwxyz''
           then methodsLoop ms
                  (privateMethods @ tab @ tab @ ''- '' @ signature @ ''\<newline>'', publicMethods)
           else methodsLoop ms
                  (privateMethods, publicMethods @ tab @ tab @ ''+ '' @ signature @ ''\<newline>''))"
    by (simp add: low WriteLineWithDepth_simps Let_def del: set_simps)
  from f m show ?thesis by (rule conjI)
qed

theorem visibility_marker_ascii_witness:
  "(of_char (CHR ''b'') :: nat) < 128 \<and> (of_char (CHR ''N'') :: nat) < 128 \<and>
   fieldsLoop [\<lparr>Field_Name = ''bar'', Field_Type = ''string''\<rparr>,
               \<lparr>Field_Name = ''Name'', Field_Type = ''string''\<rparr>] ([], []) =
     Inr (''        - bar string\<newline>'', ''        + Name string\<newline>'')"
proof -
  have b: "(of_char (CHR ''b'') :: nat) < 128" and n: "(of_char (CHR ''N'') :: nat) < 128"
    by simp_all
  show ?thesis
    using visibility_marker_ascii [OF b, of "''ar''" "''string''"
            "[\<lparr>Field_Name = ''Name'', Field_Type = ''string''\<rparr>]" "[]" "[]"]
          visibility_marker_ascii [OF n, of "''ame''" "''string''" "[]"
            "''        - bar string\<newline>''" "[]"]
    by (simp add: tab_def)
qed

text \<open>
  Beyond ASCII the marker follows the first byte of the name, not its first character: a
  name that begins with a lower-case e with acute accent (the bytes C3 A9 in UTF-8) is
  marked \<^verbatim>\<open>+\<close>, since the byte C3 read as a rune is an upper-case letter.
\<close>

lemma first_byte_decides:
  "fieldsLoop [\<lparr>Field_Name = [CHR 0xC3, CHR 0xA9] @ ''tat'', Field_Type = ''int''\<rparr>] ([], []) =
     Inr ([], ''        + '' @ [CHR 0xC3, CHR 0xA9] @ ''tat int\<newline>'')"
  by (simp add: IsLower_def WriteLineWithDepth_simps tab_def)

subsection \<open>The document markers\<close>

text \<open>
  The document of the empty model is the opening marker, one line break and the closing
  marker: no empty line stands between the two.
\<close>

theorem empty_model_no_blank_line_counterexample:
  "Render emptyModel = Inr ''@startuml\<newline>@enduml'' \<and>
   Render emptyModel \<noteq> Inr (''@startuml\<newline>'' @ ''\<newline>'' @ ''@enduml'')"
  by (simp add: Render_def emptyModel_def WriteLineWithDepth_simps)

text \<open>
  Claim C5, amended. For a model with no namespace the document is exactly
  \<^verbatim>\<open>@startuml\<close>, a line break and \<^verbatim>\<open>@enduml\<close>; and every document that \<open>Render\<close>
  returns starts with the line \<^verbatim>\<open>@startuml\<close> and ends with \<^verbatim>\<open>@enduml\<close>.
\<close>

theorem Render_markers:
  "(structure p = [] \<longrightarrow> Render p = Inr ''@startuml\<newline>@enduml'') \<and>
   (\<forall>out. Render p = Inr out \<longrightarrow> prefix ''@startuml\<newline>'' out \<and> suffix ''@enduml'' out)"
proof (intro conjI allI impI)
  assume "structure p = []"
  then show "Render p = Inr ''@startuml\<newline>@enduml''"
    by (simp add: Render_def WriteLineWithDepth_simps)
next
  fix out
  assume r: "Render p = Inr out"
  then obtain str where
    l: "packagesLoop (structure p) (WriteLineWithDepth [] 0 ''@startuml'') = Inr str"
    and t: "out = str @ ''@enduml''"
    by (auto simp: Render_def split: sum.splits)
  from packagesLoop_prefix [OF l] have "prefix ''@startuml\<newline>'' str"
    by (simp add: WriteLineWithDepth_simps)
  then show "prefix ''@startuml\<newline>'' out"
    unfolding t by (rule prefix_prefix)
  show "suffix ''@enduml'' out"
    unfolding t by (rule suffixI) simp
qed

theorem Render_markers_witness:
  "Render emptyModel = Inr ''@startuml\<newline>@enduml'' \<and>
   Render carModel = Inr carOutput \<and> prefix ''@startuml\<newline>'' carOutput \<and> suffix ''@enduml'' carOutput"
proof -
  have e: "structure emptyModel = []" by (simp add: emptyModel_def)
  from Render_markers [of emptyModel] e
  have "Render emptyModel = Inr ''@startuml\<newline>@enduml''" by blast
  moreover from Render_markers [of carModel] Render_carModel
  have "prefix ''@startuml\<newline>'' carOutput \<and> suffix ''@enduml'' carOutput" by blast
  ultimately show ?thesis using Render_carModel by blast
qed

subsection \<open>Where the edge lines stand\<close>

text \<open>
  In the document of \<open>carModel\<close> the line that closes the namespace block is line 12,
  the composition edge is line 13 and the extends edge line 15: the edges come after the
  block is closed, not before.
\<close>

theorem edges_before_closing_brace_counterexample:
  "Render carModel = Inr carOutput \<and>
   lineIndex ''}'' (splitLines carOutput) = 12 \<and>
   lineIndex ''pkg.Engine *-- pkg.Car'' (splitLines carOutput) = 13 \<and>
   lineIndex ''other.Speaker <|-- pkg.Car'' (splitLines carOutput) = 15"
proof -
  have "splitLines carOutput =
        [''@startuml'', ''namespace pkg {'', ''    class Car {'', ''        - bar string'', '''',
         ''        + Name string'', '''', ''        - doWork(count int) (int, error)'', '''',
         ''        + Speak() '', '''', ''    }'', ''}'', ''pkg.Engine *-- pkg.Car'', '''',
         ''other.Speaker <|-- pkg.Car'', '''', ''@enduml'']"
    by (simp add: splitLines_def carOutput_def carDeclaration_def)
  then show ?thesis
    using Render_carModel by (simp add: lineIndex_def)
qed

text \<open>
  Claim C6, amended. What \<open>Render\<close> writes for a namespace with at least one type is the
  opening line of the block, the declarations of all its types, the closing line of the
  block, and only then the composition edge lines of all its types, an empty line, the
  extends edge lines of all its types and an empty line.
\<close>

theorem edges_follow_namespace_block:
  assumes "packagesLoop ((pack, structures) # rest) str = Inr out"
    and "structures \<noteq> []"
  shows "\<exists>decls tail.
           list_all2 (\<lambda>(name, st) d. typeDeclaration name st = Inr d) structures decls \<and>
           out = str @ ''namespace '' @ pack @ '' {\<newline>'' @ concat decls @ ''}\<newline>'' @
                 concat (map (\<lambda>(name, st). compositionLines st pack name) structures) @ ''\<newline>'' @
                 concat (map (\<lambda>(name, st). extendsLines st pack name) structures) @ ''\<newline>'' @
                 tail"
proof -
  from assms obtain s c e where
    sl: "structuresLoop pack structures
           (WriteLineWithDepth str 0 (''namespace '' @ pack @ '' {''), [], []) = Inr (s, c, e)"
    and r: "packagesLoop rest (WriteLineWithDepth
             (WriteLineWithDepth (WriteLineWithDepth s 0 ''}'') 0 c) 0 e) = Inr out"
    by (auto split: sum.splits)
  from structuresLoop_closed [OF sl] obtain decls where
    ds: "list_all2 (\<lambda>(name, st) d. typeDeclaration name st = Inr d) structures decls"
    and s: "s = WriteLineWithDepth str 0 (''namespace '' @ pack @ '' {'') @ concat decls"
    and c: "c = concat (map (\<lambda>(name, st). compositionLines st pack name) structures)"
    and e: "e = concat (map (\<lambda>(name, st). extendsLines st pack name) structures)"
    by auto
  from packagesLoop_prefix [OF r] obtain tail where
    "out = WriteLineWithDepth (WriteLineWithDepth (WriteLineWithDepth s 0 ''}'') 0 c) 0 e @ tail"
    by (auto simp: prefix_def)
  then have "out = str @ ''namespace '' @ pack @ '' {\<newline>'' @ concat decls @ ''}\<newline>'' @
                 concat (map (\<lambda>(name, st). compositionLines st pack name) structures) @ ''\<newline>'' @
                 concat (map (\<lambda>(name, st). extendsLines st pack name) structures) @ ''\<newline>'' @
                 tail"
    by (simp add: s c e WriteLineWithDepth_simps)
  with ds show ?thesis by blast
qed

theorem edges_follow_namespace_block_witness:
  "packagesLoop [(''pkg'', [(''Car'', carStruct)])] ''@startuml\<newline>'' =
     Inr (''@startuml\<newline>namespace pkg {\<newline>'' @ carDeclaration @
          ''}\<newline>pkg.Engine *-- pkg.Car\<newline>\<newline>other.Speaker <|-- pkg.Car\<newline>\<newline>'') \<and>
   typeDeclaration ''Car'' carStruct = Inr carDeclaration \<and>
   compositionLines carStruct ''pkg'' ''Car'' = ''pkg.Engine *-- pkg.Car\<newline>'' \<and>
   extendsLines carStruct ''pkg'' ''Car'' = ''other.Speaker <|-- pkg.Car\<newline>'' \<and>
   (\<exists>decls tail.
      list_all2 (\<lambda>(name, st) d. typeDeclaration name st = Inr d) [(''Car'', carStruct)] decls \<and>
      ''@startuml\<newline>namespace pkg {\<newline>'' @ carDeclaration @
        ''}\<newline>pkg.Engine *-- pkg.Car\<newline>\<newline>other.Speaker <|-- pkg.Car\<newline>\<newline>'' =
      ''@startuml\<newline>'' @ ''namespace '' @ ''pkg'' @ '' {\<newline>'' @ concat decls @ ''}\<newline>'' @
        concat (map (\<lambda>(name, st). compositionLines st ''pkg'' name) [(''Car'', carStruct)]) @ ''\<newline>'' @
        concat (map (\<lambda>(name, st). extendsLines st ''pkg'' name) [(''Car'', carStruct)]) @ ''\<newline>'' @
        tail)"
proof -
  have run: "packagesLoop [(''pkg'', [(''Car'', carStruct)])] ''@startuml\<newline>'' =
     Inr (''@startuml\<newline>namespace pkg {\<newline>'' @ carDeclaration @
          ''}\<newline>pkg.Engine *-- pkg.Car\<newline>\<newline>other.Speaker <|-- pkg.Car\<newline>\<newline>'')"
    by (simp add: carStruct_def carDeclaration_def WriteLineWithDepth_simps IsLower_def
          compositionLoop_def extendsLoop_def tab_def)
  have ne: "[(''Car'', carStruct)] \<noteq> []" by simp
  have d: "typeDeclaration ''Car'' carStruct = Inr carDeclaration"
    by (simp add: typeDeclaration_def carStruct_def carDeclaration_def WriteLineWithDepth_simps
          IsLower_def memberGroup_def tab_def)
  have c: "compositionLines carStruct ''pkg'' ''Car'' = ''pkg.Engine *-- pkg.Car\<newline>''"
    by (simp add: compositionLines_def carStruct_def)
  have e: "extendsLines carStruct ''pkg'' ''Car'' = ''other.Speaker <|-- pkg.Car\<newline>''"
    by (simp add: extendsLines_def carStruct_def)
  from edges_follow_namespace_block [OF run ne] run d c e show ?thesis
    by (intro conjI)
qed

text \<open>
  Claim C7. Every composition edge line and every extends edge line of a namespace begins
  with the stored reference as it is when the reference contains a dot, and with the
  reference prefixed by the package of the owning type and a dot when it contains none;
  the arrow and the qualified name of the owning type follow.
\<close>

theorem edge_source_qualified:
  assumes "structuresLoop pack structures (str, composition, extends) =
             Inr (str', composition', extends')"
  shows "composition' = composition @
           concat (map (\<lambda>(name, st). concat (map (\<lambda>c.
               (if CHR ''.'' \<in> set c then c else PackageName st @ ''.'' @ c) @
               '' *-- '' @ pack @ ''.'' @ name @ ''\<newline>'') (Composition st))) structures) \<and>
         extends' = extends @
           concat (map (\<lambda>(name, st). concat (map (\<lambda>c.
               (if CHR ''.'' \<in> set c then c else PackageName st @ ''.'' @ c) @
               '' <|-- '' @ pack @ ''.'' @ name @ ''\<newline>'') (Extends st))) structures)"
  using structuresLoop_closed [OF assms]
  by (simp add: compositionLines_def extendsLines_def)

theorem edge_source_qualified_witness:
  "structuresLoop ''pkg'' [(''Car'', carStruct)] (''namespace pkg {\<newline>'', [], []) =
     Inr (''namespace pkg {\<newline>'' @ carDeclaration,
          ''pkg.Engine *-- pkg.Car\<newline>'', ''other.Speaker <|-- pkg.Car\<newline>'')"
proof -
  obtain s c e where run:
    "structuresLoop ''pkg'' [(''Car'', carStruct)] (''namespace pkg {\<newline>'', [], []) = Inr (s, c, e)"
    and s: "s = ''namespace pkg {\<newline>'' @ carDeclaration"
    by (simp add: carStruct_def carDeclaration_def WriteLineWithDepth_simps IsLower_def
          compositionLoop_def extendsLoop_def tab_def)
  from edge_source_qualified [OF run]
  have "c = ''pkg.Engine *-- pkg.Car\<newline>''" and "e = ''other.Speaker <|-- pkg.Car\<newline>''"
    by (simp_all add: carStruct_def)
  with run s show ?thesis by simp
qed

subsection \<open>\<open>Render\<close> is total on well-formed models\<close>

text \<open>
  Claim C8. \<open>Render\<close> returns a document for every well-formed model, the empty one
  included: it returns exactly when no field and no method of the model has an empty
  name, so the indexing of the first character is the only panic there is, and it cannot
  happen on a well-formed model.
\<close>

theorem Render_total: "(\<exists>out. Render p = Inr out) = wellFormed p"
proof (cases "wellFormed p")
  case True
  then obtain r where "packagesLoop (structure p) (WriteLineWithDepth [] 0 ''@startuml'') = Inr r"
    using packagesLoop_total [of "structure p"] by (auto simp: wellFormed_def)
  with True show ?thesis by (simp add: Render_def)
next
  case False
  then have "packagesLoop (structure p) (WriteLineWithDepth [] 0 ''@startuml'') = Inl IndexOutOfRange"
    using packagesLoop_panics [of "structure p"] by (simp add: wellFormed_def)
  with False show ?thesis by (simp add: Render_def)
qed

theorem Render_total_witness:
  "wellFormed emptyModel \<and> wellFormed carModel \<and>
   (\<exists>out. Render emptyModel = Inr out) \<and> (\<exists>out. Render carModel = Inr out)"
proof -
  have "wellFormed emptyModel" by (simp add: wellFormed_def emptyModel_def)
  moreover have "wellFormed carModel"
    by (simp add: wellFormed_def carModel_def carStruct_def namesNonEmpty_def)
  ultimately show ?thesis
    using Render_total [of emptyModel] Render_total [of carModel] by blast
qed

section \<open>Properties of the model builder\<close>

subsection \<open>Reading and writing through a pointer\<close>

lemma lookupStruct_updateStruct:
  "lookupStruct (updateStruct ptr f p) q =
     (if q = ptr then map_option f (lookupStruct p ptr) else lookupStruct p q)"
proof -
  obtain a b where ptr: "ptr = (a, b)" by (cases ptr)
  obtain c d where q: "q = (c, d)" by (cases q)
  show ?thesis
    by (auto simp: ptr q lookupStruct_def updateStruct_def AList.update_conv'
          split: option.splits)
qed

lemma updateStruct_frame [simp]:
  "currentPackageName (updateStruct ptr f p) = currentPackageName p"
  "allInterfaces (updateStruct ptr f p) = allInterfaces p"
  "allStructs (updateStruct ptr f p) = allStructs p"
  by (simp_all add: updateStruct_def split: option.splits)

lemma updateStruct_keys [simp]:
  "map fst (structure (updateStruct ptr f p)) = map fst (structure p)"
  by (auto simp: updateStruct_def AList.update_keys split: option.splits
        dest: map_of_SomeD intro: rev_image_eqI)

lemma map_of_update_list_all:
  "list_all P al \<Longrightarrow> P (k, v) \<Longrightarrow> list_all P (AList.update k v al)"
  by (induction al) auto

lemma map_of_list_all: "list_all P al \<Longrightarrow> map_of al k = Some v \<Longrightarrow> P (k, v)"
  by (auto simp: list_all_iff dest: map_of_SomeD)

lemma uniqueKeys_updateStruct: "uniqueKeys p \<Longrightarrow> uniqueKeys (updateStruct ptr f p)"
proof -
  assume u: "uniqueKeys p"
  show ?thesis
  proof (cases "map_of (structure p) (fst ptr)")
    case None
    with u show ?thesis by (simp add: updateStruct_def)
  next
    case (Some pack)
    show ?thesis
    proof (cases "map_of pack (snd ptr)")
      case None
      with u Some show ?thesis by (simp add: updateStruct_def)
    next
      case (Some st)
      from u \<open>map_of (structure p) (fst ptr) = Some pack\<close>
      have "distinct (map fst pack)"
        using map_of_list_all [of "\<lambda>(pack, structures). distinct (map fst structures)"
                "structure p" "fst ptr" pack]
        by (simp add: uniqueKeys_def)
      then have "distinct (map fst (AList.update (snd ptr) (f st) pack))"
        by (rule AList.distinct_update)
      with u Some \<open>map_of (structure p) (fst ptr) = Some pack\<close> show ?thesis
        by (simp add: updateStruct_def uniqueKeys_def AList.distinct_update
              map_of_update_list_all)
    qed
  qed
qed

lemma getOrCreateStruct_Inr:
  assumes "getOrCreateStruct p name = Inr (p1, ptr)"
  shows "ptr = (currentPackageName p, name)"
    and "currentPackageName p1 = currentPackageName p"
    and "allInterfaces p1 = allInterfaces p"
    and "allStructs p1 = allStructs p"
    and "map fst (structure p1) = map fst (structure p)"
    and "lookupStruct p1 q =
           (if q = (currentPackageName p, name) then Some (structOrFresh p name)
            else lookupStruct p q)"
    and "uniqueKeys p \<Longrightarrow> uniqueKeys p1"
proof -
  from assms obtain pack where pk: "map_of (structure p) (currentPackageName p) = Some pack"
    by (auto simp: getOrCreateStruct_def split: option.splits)
  have mem: "currentPackageName p \<in> fst ` set (structure p)"
    using pk by (auto dest: map_of_SomeD intro: rev_image_eqI)
  show "ptr = (currentPackageName p, name)"
    using assms pk by (auto simp: getOrCreateStruct_def split: option.splits)
  show "currentPackageName p1 = currentPackageName p"
    using assms pk by (auto simp: getOrCreateStruct_def split: option.splits)
  show "allInterfaces p1 = allInterfaces p"
    using assms pk by (auto simp: getOrCreateStruct_def split: option.splits)
  show "allStructs p1 = allStructs p"
    using assms pk by (auto simp: getOrCreateStruct_def split: option.splits)
  show "map fst (structure p1) = map fst (structure p)"
    using assms pk by (cases "map_of pack name") (auto simp: getOrCreateStruct_def AList.update_keys mem)
  show "lookupStruct p1 q =
           (if q = (currentPackageName p, name) then Some (structOrFresh p name)
            else lookupStruct p q)"
  proof -
    obtain c d where q: "q = (c, d)" by (cases q)
    show ?thesis
      using assms pk
      by (auto simp: q getOrCreateStruct_def lookupStruct_def structOrFresh_def freshStruct_def
            AList.update_conv' split: option.splits if_splits)
  qed
  show "uniqueKeys p1" if u: "uniqueKeys p"
  proof (cases "map_of pack name")
    case (Some st)
    with assms pk u show ?thesis by (simp add: getOrCreateStruct_def)
  next
    case None
    from u pk have "distinct (map fst pack)"
      using map_of_list_all [of "\<lambda>(pack, structures). distinct (map fst structures)"
              "structure p" "currentPackageName p" pack]
      by (simp add: uniqueKeys_def)
    then have "distinct (map fst (AList.update name (freshStruct (currentPackageName p)) pack))"
      by (rule AList.distinct_update)
    with assms pk u None show ?thesis
      by (auto simp: getOrCreateStruct_def uniqueKeys_def AList.distinct_update
            map_of_update_list_all freshStruct_def)
  qed
qed

subsection \<open>The loops of a declaration in closed form\<close>

lemma modify_struct:
  assumes "getOrCreateStruct p name = Inr (p1, ptr)"
  shows "lookupStruct (updateStruct ptr f p1) q =
           (if q = (currentPackageName p, name) then Some (f (structOrFresh p name))
            else lookupStruct p q)"
    and "structOrFresh (updateStruct ptr f p1) name = f (structOrFresh p name)"
proof -
  note g = getOrCreateStruct_Inr [OF assms]
  show l: "lookupStruct (updateStruct ptr f p1) q =
           (if q = (currentPackageName p, name) then Some (f (structOrFresh p name))
            else lookupStruct p q)" for q
    by (simp add: lookupStruct_updateStruct g(1) g(6))
  show "structOrFresh (updateStruct ptr f p1) name = f (structOrFresh p name)"
    by (simp add: structOrFresh_def [of "updateStruct ptr f p1"] l g(2))
qed

lemma addFieldsLoop_Inr:
  assumes "addFieldsLoop gft typeName fs p = Inr p'"
  shows "currentPackageName p' = currentPackageName p \<and>
         allInterfaces p' = allInterfaces p \<and> allStructs p' = allStructs p \<and>
         map fst (structure p') = map fst (structure p) \<and>
         (uniqueKeys p \<longrightarrow> uniqueKeys p') \<and>
         (\<forall>q. lookupStruct p' q =
            (if q = (currentPackageName p, typeName) \<and> fs \<noteq> []
             then Some (foldl (AddField gft) (structOrFresh p typeName) fs)
             else lookupStruct p q))"
  using assms
proof (induction fs arbitrary: p)
  case Nil
  then show ?case by simp
next
  case (Cons f fs)
  from Cons.prems obtain p1 ptr where
    g: "getOrCreateStruct p typeName = Inr (p1, ptr)"
    and r: "addFieldsLoop gft typeName fs (updateStruct ptr (\<lambda>st. AddField gft st f) p1) = Inr p'"
    by (auto split: sum.splits)
  let ?p2 = "updateStruct ptr (\<lambda>st. AddField gft st f) p1"
  note g' = getOrCreateStruct_Inr [OF g]
  note m = modify_struct [OF g, of "\<lambda>st. AddField gft st f"]
  have cur: "currentPackageName ?p2 = currentPackageName p" by (simp add: g'(2))
  from Cons.IH [OF r] show ?case
    by (simp add: g'(2,3,4,5) m uniqueKeys_updateStruct g'(7))
qed

lemma addMethodsLoop_Inr:
  assumes "addMethodsLoop gft typeName fs p = Inr p'"
  shows "currentPackageName p' = currentPackageName p \<and>
         allInterfaces p' = allInterfaces p \<and> allStructs p' = allStructs p \<and>
         map fst (structure p') = map fst (structure p) \<and>
         (uniqueKeys p \<longrightarrow> uniqueKeys p') \<and>
         (\<forall>q. lookupStruct p' q =
            (if q = (currentPackageName p, typeName) \<and> fs \<noteq> []
             then Some (foldl (AddMethod gft) (structOrFresh p typeName) fs)
             else lookupStruct p q))"
  using assms
proof (induction fs arbitrary: p)
  case Nil
  then show ?case by simp
next
  case (Cons f fs)
  from Cons.prems obtain p1 ptr where
    g: "getOrCreateStruct p typeName = Inr (p1, ptr)"
    and r: "addMethodsLoop gft typeName fs (updateStruct ptr (\<lambda>st. AddMethod gft st f) p1) = Inr p'"
    by (auto split: sum.splits)
  let ?p2 = "updateStruct ptr (\<lambda>st. AddMethod gft st f) p1"
  note g' = getOrCreateStruct_Inr [OF g]
  note m = modify_struct [OF g, of "\<lambda>st. AddMethod gft st f"]
  have cur: "currentPackageName ?p2 = currentPackageName p" by (simp add: g'(2))
  from Cons.IH [OF r] show ?case
    by (simp add: g'(2,3,4,5) m uniqueKeys_updateStruct g'(7))
qed

lemma setDeclarationType_Inr:
  assumes "setDeclarationType p typeName declarationType = Inr p'"
  shows "currentPackageName p' = currentPackageName p \<and>
         allInterfaces p' =
           (if declarationType = ''interface''
            then List.insert (currentPackageName p @ ''.'' @ typeName) (allInterfaces p)
            else allInterfaces p) \<and>
         allStructs p' =
           (if declarationType = ''class''
            then List.insert (currentPackageName p @ ''.'' @ typeName) (allStructs p)
            else allStructs p) \<and>
         map fst (structure p') = map fst (structure p) \<and>
         (uniqueKeys p \<longrightarrow> uniqueKeys p') \<and>
         (\<forall>q. lookupStruct p' q =
            (if q = (currentPackageName p, typeName)
             then Some ((structOrFresh p typeName)\<lparr>Struct_Type := declarationType\<rparr>)
             else lookupStruct p q))"
proof -
  from assms obtain p1 ptr where g: "getOrCreateStruct p typeName = Inr (p1, ptr)"
    by (auto simp: setDeclarationType_def split: sum.splits)
  let ?p2 = "updateStruct ptr (\<lambda>st. st\<lparr>Struct_Type := declarationType\<rparr>) p1"
  note g' = getOrCreateStruct_Inr [OF g]
  note m = modify_struct [OF g]
  have l: "lookupStruct (x\<lparr>allInterfaces := a\<rparr>) q = lookupStruct x q"
          "lookupStruct (x\<lparr>allStructs := b\<rparr>) q = lookupStruct x q" for x a b q
    by (simp_all add: lookupStruct_def)
  have u: "uniqueKeys (x\<lparr>allInterfaces := a\<rparr>) = uniqueKeys x"
          "uniqueKeys (x\<lparr>allStructs := b\<rparr>) = uniqueKeys x" for x a b
    by (simp_all add: uniqueKeys_def)
  from assms g have "p' = (if declarationType = ''interface''
       then ?p2\<lparr>allInterfaces := List.insert (currentPackageName p @ ''.'' @ typeName) (allInterfaces ?p2)\<rparr>
       else if declarationType = ''class''
       then ?p2\<lparr>allStructs := List.insert (currentPackageName p @ ''.'' @ typeName) (allStructs ?p2)\<rparr>
       else ?p2)"
    by (simp add: setDeclarationType_def Let_def g'(2) split: if_splits)
  then show ?thesis
    by (simp add: l u m g'(2,3,4,5) uniqueKeys_updateStruct g'(7))
qed

lemma structOrFresh_cong:
  "currentPackageName p1 = currentPackageName p \<Longrightarrow>
   lookupStruct p1 (currentPackageName p, name) = lookupStruct p (currentPackageName p, name) \<Longrightarrow>
   structOrFresh p1 name = structOrFresh p name"
  by (simp add: structOrFresh_def split: option.splits)

lemma structOrFresh_Some:
  "lookupStruct p (currentPackageName p, name) = Some st \<Longrightarrow> structOrFresh p name = st"
  by (simp add: structOrFresh_def)

lemma parse_struct_Inr:
  assumes "parseFileDeclarations gft p (GenDecl (TypeSpec typeName (StructType fieldList) # others)) = Inr p'"
  shows "currentPackageName p' = currentPackageName p \<and>
         allInterfaces p' = allInterfaces p \<and>
         allStructs p' = List.insert (currentPackageName p @ ''.'' @ typeName) (allStructs p) \<and>
         map fst (structure p') = map fst (structure p) \<and>
         (uniqueKeys p \<longrightarrow> uniqueKeys p') \<and>
         (\<forall>q. lookupStruct p' q =
            (if q = (currentPackageName p, typeName)
             then Some ((foldl (AddField gft) (structOrFresh p typeName) fieldList)
                          \<lparr>Struct_Type := ''class''\<rparr>)
             else lookupStruct p q))"
proof -
  from assms obtain p1 where
    a: "addFieldsLoop gft typeName fieldList p = Inr p1"
    and s: "setDeclarationType p1 typeName ''class'' = Inr p'"
    by (auto simp: parseFileDeclarations_def split: sum.splits)
  note a' = addFieldsLoop_Inr [OF a]
  note s' = setDeclarationType_Inr [OF s]
  have sf: "structOrFresh p1 typeName = foldl (AddField gft) (structOrFresh p typeName) fieldList"
  proof (cases "fieldList = []")
    case True
    have "structOrFresh p1 typeName = structOrFresh p typeName"
      using a' True by (intro structOrFresh_cong) simp_all
    with True show ?thesis by simp
  next
    case False
    with a' have "lookupStruct p1 (currentPackageName p1, typeName) =
                  Some (foldl (AddField gft) (structOrFresh p typeName) fieldList)"
      by simp
    then show ?thesis by (rule structOrFresh_Some)
  qed
  from a' s' show ?thesis by (simp add: sf)
qed

lemma parse_interface_Inr:
  assumes "parseFileDeclarations gft p (GenDecl (TypeSpec typeName (InterfaceType methods) # others)) = Inr p'"
  shows "currentPackageName p' = currentPackageName p \<and>
         allInterfaces p' = List.insert (currentPackageName p @ ''.'' @ typeName) (allInterfaces p) \<and>
         allStructs p' = allStructs p \<and>
         map fst (structure p') = map fst (structure p) \<and>
         (uniqueKeys p \<longrightarrow> uniqueKeys p') \<and>
         (\<forall>q. lookupStruct p' q =
            (if q = (currentPackageName p, typeName)
             then Some ((foldl (AddMethod gft) (structOrFresh p typeName) methods)
                          \<lparr>Struct_Type := ''interface''\<rparr>)
             else lookupStruct p q))"
proof -
  from assms obtain p1 where
    a: "addMethodsLoop gft typeName methods p = Inr p1"
    and s: "setDeclarationType p1 typeName ''interface'' = Inr p'"
    by (auto simp: parseFileDeclarations_def split: sum.splits)
  note a' = addMethodsLoop_Inr [OF a]
  note s' = setDeclarationType_Inr [OF s]
  have sf: "structOrFresh p1 typeName = foldl (AddMethod gft) (structOrFresh p typeName) methods"
  proof (cases "methods = []")
    case True
    have "structOrFresh p1 typeName = structOrFresh p typeName"
      using a' True by (intro structOrFresh_cong) simp_all
    with True show ?thesis by simp
  next
    case False
    with a' have "lookupStruct p1 (currentPackageName p1, typeName) =
                  Some (foldl (AddMethod gft) (structOrFresh p typeName) methods)"
      by simp
    then show ?thesis by (rule structOrFresh_Some)
  qed
  from a' s' show ?thesis by (simp add: sf)
qed

lemma parse_func_Inr:
  assumes "parseFileDeclarations gft p (FuncDecl (Some (r # rs)) name ty) = Inr p'"
  shows "\<exists>c cs. gft (Type r) '''' = c # cs \<and>
         currentPackageName p' = currentPackageName p \<and>
         allInterfaces p' = allInterfaces p \<and>
         allStructs p' = allStructs p \<and>
         map fst (structure p') = map fst (structure p) \<and>
         (uniqueKeys p \<longrightarrow> uniqueKeys p') \<and>
         (\<forall>q. lookupStruct p' q =
            (if q = (currentPackageName p, if c = CHR ''*'' then cs else c # cs)
             then Some (AddMethod gft
                    (if Struct_Type (structOrFresh p (if c = CHR ''*'' then cs else c # cs)) = ''''
                     then (structOrFresh p (if c = CHR ''*'' then cs else c # cs))\<lparr>Struct_Type := ''class''\<rparr>
                     else structOrFresh p (if c = CHR ''*'' then cs else c # cs))
                    (AstField [name] ty))
             else lookupStruct p q))"
proof -
  from assms obtain c cs where t: "gft (Type r) '''' = c # cs"
    by (cases "gft (Type r) ''''") (auto simp: parseFileDeclarations_def)
  define theType where "theType = (if c = CHR ''*'' then cs else c # cs)"
  from assms t obtain p1 ptr where
    g: "getOrCreateStruct p theType = Inr (p1, ptr)"
    and p': "p' = updateStruct ptr (\<lambda>st. AddMethod gft st (AstField [name] ty))
                   (updateStruct ptr (\<lambda>st. if Struct_Type st = '''' then st\<lparr>Struct_Type := ''class''\<rparr> else st) p1)"
    by (auto simp: parseFileDeclarations_def theType_def Let_def split: sum.splits)
  note g' = getOrCreateStruct_Inr [OF g]
  define p2 where
    "p2 = updateStruct ptr (\<lambda>st. if Struct_Type st = '''' then st\<lparr>Struct_Type := ''class''\<rparr> else st) p1"
  have l2: "lookupStruct p2 q =
              (if q = (currentPackageName p, theType)
               then Some (if Struct_Type (structOrFresh p theType) = ''''
                          then (structOrFresh p theType)\<lparr>Struct_Type := ''class''\<rparr>
                          else structOrFresh p theType)
               else lookupStruct p q)" for q
    unfolding p2_def by (rule modify_struct(1) [OF g])
  have l3: "lookupStruct p' q =
              (if q = ptr
               then map_option (\<lambda>st. AddMethod gft st (AstField [name] ty)) (lookupStruct p2 ptr)
               else lookupStruct p2 q)" for q
    unfolding p' p2_def [symmetric] by (rule lookupStruct_updateStruct)
  have "\<forall>q. lookupStruct p' q =
            (if q = (currentPackageName p, theType)
             then Some (AddMethod gft
                    (if Struct_Type (structOrFresh p theType) = ''''
                     then (structOrFresh p theType)\<lparr>Struct_Type := ''class''\<rparr>
                     else structOrFresh p theType)
                    (AstField [name] ty))
             else lookupStruct p q)"
    by (simp add: l3 l2 g'(1))
  moreover have "currentPackageName p' = currentPackageName p" by (simp add: p' g'(2))
  moreover have "allInterfaces p' = allInterfaces p" by (simp add: p' g'(3))
  moreover have "allStructs p' = allStructs p" by (simp add: p' g'(4))
  moreover have "map fst (structure p') = map fst (structure p)" by (simp add: p' g'(5))
  moreover have "uniqueKeys p \<longrightarrow> uniqueKeys p'"
    by (simp add: p' uniqueKeys_updateStruct g'(7))
  ultimately show ?thesis using t unfolding theType_def by blast
qed

subsection \<open>The effect of one declaration\<close>

lemma decl_shapes:
  obtains (struct) typeName fieldList others where
      "d = GenDecl (TypeSpec typeName (StructType fieldList) # others)"
  | (iface) typeName methods others where
      "d = GenDecl (TypeSpec typeName (InterfaceType methods) # others)"
  | (func) r rs name ty where "d = FuncDecl (Some (r # rs)) name ty"
  | (other) "declaredKind d = None" and "\<And>gft. declEffect gft d = None"
      and "\<And>gft p p'. parseFileDeclarations gft p d = Inr p' \<Longrightarrow> p' = p"
proof (cases d)
  case (GenDecl specs)
  show ?thesis
  proof (cases specs)
    case Nil
    with GenDecl show ?thesis
      by (intro other) (simp_all add: declaredKind_def declEffect_def parseFileDeclarations_def)
  next
    case (Cons spec others)
    show ?thesis
    proof (cases spec)
      case (TypeSpec typeName ty)
      show ?thesis
      proof (cases ty)
        case (StructType fieldList)
        with GenDecl Cons TypeSpec show ?thesis by (intro struct) simp
      next
        case (InterfaceType methods)
        with GenDecl Cons TypeSpec show ?thesis by (intro iface) simp
      next
        case (FuncType a b)
        with GenDecl Cons TypeSpec show ?thesis
          by (intro other) (simp_all add: declaredKind_def declEffect_def parseFileDeclarations_def)
      next
        case (OtherExpr s)
        with GenDecl Cons TypeSpec show ?thesis
          by (intro other) (simp_all add: declaredKind_def declEffect_def parseFileDeclarations_def)
      qed
    next
      case ImportSpec
      with GenDecl Cons show ?thesis
        by (intro other) (simp_all add: declaredKind_def declEffect_def parseFileDeclarations_def)
    next
      case ValueSpec
      with GenDecl Cons show ?thesis
        by (intro other) (simp_all add: declaredKind_def declEffect_def parseFileDeclarations_def)
    qed
  qed
next
  case (FuncDecl recv name ty)
  show ?thesis
  proof (cases recv)
    case None
    with FuncDecl show ?thesis
      by (intro other) (simp_all add: declaredKind_def declEffect_def parseFileDeclarations_def)
  next
    case (Some recvList)
    show ?thesis
    proof (cases recvList)
      case Nil
      with FuncDecl Some show ?thesis
        by (intro other) (simp_all add: declaredKind_def declEffect_def parseFileDeclarations_def)
    next
      case (Cons r rs)
      with FuncDecl Some show ?thesis by (intro func) simp
    qed
  qed
next
  case BadDecl
  then show ?thesis
    by (intro other) (simp_all add: declaredKind_def declEffect_def parseFileDeclarations_def)
qed

lemma parseFileDeclarations_effect:
  assumes "parseFileDeclarations gft p d = Inr p'"
  shows "currentPackageName p' = currentPackageName p \<and>
         map fst (structure p') = map fst (structure p) \<and>
         (uniqueKeys p \<longrightarrow> uniqueKeys p') \<and>
         allInterfaces p' =
           (case declaredKind d of
              None \<Rightarrow> allInterfaces p
            | Some (typeName, kind) \<Rightarrow>
                if kind = ''interface''
                then List.insert (currentPackageName p @ ''.'' @ typeName) (allInterfaces p)
                else allInterfaces p) \<and>
         allStructs p' =
           (case declaredKind d of
              None \<Rightarrow> allStructs p
            | Some (typeName, kind) \<Rightarrow>
                if kind = ''class''
                then List.insert (currentPackageName p @ ''.'' @ typeName) (allStructs p)
                else allStructs p) \<and>
         (\<forall>q. lookupStruct p' q =
            (case declEffect gft d of
               None \<Rightarrow> lookupStruct p q
             | Some (typeName, g) \<Rightarrow>
                 if q = (currentPackageName p, typeName)
                 then Some (g (structOrFresh p typeName))
                 else lookupStruct p q))"
proof (cases d rule: decl_shapes)
  case (struct typeName fieldList others)
  from parse_struct_Inr [OF assms [unfolded struct]] show ?thesis
    by (simp add: struct declaredKind_def declEffect_def)
next
  case (iface typeName methods others)
  from parse_interface_Inr [OF assms [unfolded iface]] show ?thesis
    by (simp add: iface declaredKind_def declEffect_def)
next
  case (func r rs name ty)
  from parse_func_Inr [OF assms [unfolded func]] obtain c cs where
    t: "gft (Type r) '''' = c # cs" and
    rest: "currentPackageName p' = currentPackageName p \<and>
         allInterfaces p' = allInterfaces p \<and>
         allStructs p' = allStructs p \<and>
         map fst (structure p') = map fst (structure p) \<and>
         (uniqueKeys p \<longrightarrow> uniqueKeys p') \<and>
         (\<forall>q. lookupStruct p' q =
            (if q = (currentPackageName p, if c = CHR ''*'' then cs else c # cs)
             then Some (AddMethod gft
                    (if Struct_Type (structOrFresh p (if c = CHR ''*'' then cs else c # cs)) = ''''
                     then (structOrFresh p (if c = CHR ''*'' then cs else c # cs))\<lparr>Struct_Type := ''class''\<rparr>
                     else structOrFresh p (if c = CHR ''*'' then cs else c # cs))
                    (AstField [name] ty))
             else lookupStruct p q))"
    by blast
  from rest show ?thesis
    by (simp add: func declaredKind_def declEffect_def t)
next
  case other
  from other(3) [OF assms] other(1) other(2) [of gft] show ?thesis by simp
qed

subsection \<open>Kinds and the table\<close>

lemma lookupStruct_iff:
  assumes "uniqueKeys p"
  shows "(lookupStruct p (pk, n) = Some st) =
         (\<exists>m. (pk, m) \<in> set (structure p) \<and> (n, st) \<in> set m)"
proof
  assume "lookupStruct p (pk, n) = Some st"
  then obtain m where "map_of (structure p) pk = Some m" and "map_of m n = Some st"
    by (auto simp: lookupStruct_def split: option.splits)
  then show "\<exists>m. (pk, m) \<in> set (structure p) \<and> (n, st) \<in> set m"
    by (blast dest: map_of_SomeD)
next
  assume "\<exists>m. (pk, m) \<in> set (structure p) \<and> (n, st) \<in> set m"
  then obtain m where m: "(pk, m) \<in> set (structure p)" and s: "(n, st) \<in> set m" by blast
  from assms have d: "distinct (map fst (structure p))" by (simp add: uniqueKeys_def)
  from assms m have dm: "distinct (map fst m)"
    by (auto simp: uniqueKeys_def list_all_iff)
  from d m have "map_of (structure p) pk = Some m" by simp
  moreover from dm s have "map_of m n = Some st" by simp
  ultimately show "lookupStruct p (pk, n) = Some st" by (simp add: lookupStruct_def)
qed

lemma kindsAssigned_lookup:
  assumes "uniqueKeys p"
  shows "kindsAssigned p =
         (\<forall>q st. lookupStruct p q = Some st \<longrightarrow>
                 Struct_Type st = ''class'' \<or> Struct_Type st = ''interface'')"
proof -
  have "kindsAssigned p =
        (\<forall>pk n st. (\<exists>m. (pk, m) \<in> set (structure p) \<and> (n, st) \<in> set m) \<longrightarrow>
                   Struct_Type st = ''class'' \<or> Struct_Type st = ''interface'')"
    unfolding kindsAssigned_def list_all_iff by fast
  also have "\<dots> = (\<forall>pk n st. lookupStruct p (pk, n) = Some st \<longrightarrow>
                   Struct_Type st = ''class'' \<or> Struct_Type st = ''interface'')"
    by (simp only: lookupStruct_iff [OF assms])
  finally show ?thesis by simp
qed

lemma Struct_Type_AddField [simp]: "Struct_Type (AddField gft st f) = Struct_Type st"
  by (simp add: AddField_def AddToComposition_def split: list.splits)

lemma Struct_Type_AddMethod [simp]: "Struct_Type (AddMethod gft st f) = Struct_Type st"
  by (simp add: AddMethod_def split: Expr.splits list.splits)

lemma Struct_Type_foldl_AddField [simp]:
  "Struct_Type (foldl (AddField gft) st fs) = Struct_Type st"
  by (induction fs arbitrary: st) simp_all

lemma Struct_Type_foldl_AddMethod [simp]:
  "Struct_Type (foldl (AddMethod gft) st fs) = Struct_Type st"
  by (induction fs arbitrary: st) simp_all

lemma Struct_Type_freshStruct [simp]: "Struct_Type (freshStruct pk) = ''''"
  by (simp add: freshStruct_def)

text \<open>The kind that a declaration leaves on the type it is about.\<close>

lemma declEffect_kind:
  assumes "declEffect gft d = Some (typeName, g)"
  shows "Struct_Type (g st) =
           (case declaredKind d of
              Some (n, kind) \<Rightarrow> kind
            | None \<Rightarrow> if Struct_Type st = '''' then ''class'' else Struct_Type st)"
    and "declaredKind d = None \<or> (\<exists>kind. declaredKind d = Some (typeName, kind))"
    and "declaredKind d = None \<longrightarrow> receiverType gft d = Some typeName"
proof (atomize (full), cases d rule: decl_shapes)
  case (struct tn fieldList others)
  with assms show "Struct_Type (g st) =
           (case declaredKind d of
              Some (n, kind) \<Rightarrow> kind
            | None \<Rightarrow> if Struct_Type st = '''' then ''class'' else Struct_Type st) \<and>
     (declaredKind d = None \<or> (\<exists>kind. declaredKind d = Some (typeName, kind))) \<and>
     (declaredKind d = None \<longrightarrow> receiverType gft d = Some typeName)"
    by (auto simp: declEffect_def declaredKind_def)
next
  case (iface tn methods others)
  with assms show "Struct_Type (g st) =
           (case declaredKind d of
              Some (n, kind) \<Rightarrow> kind
            | None \<Rightarrow> if Struct_Type st = '''' then ''class'' else Struct_Type st) \<and>
     (declaredKind d = None \<or> (\<exists>kind. declaredKind d = Some (typeName, kind))) \<and>
     (declaredKind d = None \<longrightarrow> receiverType gft d = Some typeName)"
    by (auto simp: declEffect_def declaredKind_def)
next
  case (func r rs name ty)
  with assms show "Struct_Type (g st) =
           (case declaredKind d of
              Some (n, kind) \<Rightarrow> kind
            | None \<Rightarrow> if Struct_Type st = '''' then ''class'' else Struct_Type st) \<and>
     (declaredKind d = None \<or> (\<exists>kind. declaredKind d = Some (typeName, kind))) \<and>
     (declaredKind d = None \<longrightarrow> receiverType gft d = Some typeName)"
    by (auto simp: declEffect_def declaredKind_def receiverType_def split: list.splits)
next
  case other
  with assms show "Struct_Type (g st) =
           (case declaredKind d of
              Some (n, kind) \<Rightarrow> kind
            | None \<Rightarrow> if Struct_Type st = '''' then ''class'' else Struct_Type st) \<and>
     (declaredKind d = None \<or> (\<exists>kind. declaredKind d = Some (typeName, kind))) \<and>
     (declaredKind d = None \<longrightarrow> receiverType gft d = Some typeName)"
    by simp
qed

lemma declaredKind_effect:
  "declaredKind d = Some (typeName, kind) \<Longrightarrow>
   (kind = ''class'' \<or> kind = ''interface'') \<and> (\<exists>g. declEffect gft d = Some (typeName, g))"
  by (cases d rule: decl_shapes) (auto simp: declaredKind_def declEffect_def)

lemma receiverType_effect:
  "receiverType gft d = Some typeName \<Longrightarrow>
   declaredKind d = None \<and> (\<exists>g. declEffect gft d = Some (typeName, g))"
  by (auto simp: declaredKind_def declEffect_def receiverType_def
        split: Decl.splits option.splits list.splits)

subsection \<open>The kind of a type\<close>

text \<open>
  The type \<^verbatim>\<open>Conn\<close> is declared as a struct and then as an interface: its kind is
  \<^verbatim>\<open>class\<close> after the first declaration and \<^verbatim>\<open>interface\<close> after the second. The
  first-assigned kind is not kept.
\<close>

theorem kind_replaced_counterexample:
  "parseFileDeclarations exprText pkgState connStructDecl =
     Inr (connState (connStruct ''class'' []) []) \<and>
   parseFileDeclarations exprText (connState (connStruct ''class'' []) []) connInterfaceDecl =
     Inr (connState (connStruct ''interface'' []) [''pkg.Conn'']) \<and>
   map_option Struct_Type (lookupStruct (connState (connStruct ''class'' []) []) (''pkg'', ''Conn'')) =
     Some ''class'' \<and>
   map_option Struct_Type
     (lookupStruct (connState (connStruct ''interface'' []) [''pkg.Conn'']) (''pkg'', ''Conn'')) =
     Some ''interface''"
  by (simp add: parseFileDeclarations_def pkgState_def connStructDecl_def connInterfaceDecl_def
        connState_def connStruct_def setDeclarationType_def getOrCreateStruct_def
        updateStruct_def lookupStruct_def Let_def)

text \<open>
  Claim C2, amended. A struct or interface type declaration sets the kind of the declared
  type to the declared kind, whatever it was before. A method declaration sets the kind of
  its receiver type to \<^verbatim>\<open>class\<close> when it is still empty and keeps it otherwise. No
  declaration changes the assigned kind of a type that it does not declare: an assigned
  kind changes only by a struct or interface declaration of that name in the current
  package, and never back to empty.
\<close>

theorem kind_assignment:
  assumes "parseFileDeclarations gft p d = Inr p'"
  shows "(\<forall>typeName kind. declaredKind d = Some (typeName, kind) \<longrightarrow>
            map_option Struct_Type (lookupStruct p' (currentPackageName p, typeName)) = Some kind) \<and>
         (\<forall>typeName. receiverType gft d = Some typeName \<longrightarrow>
            map_option Struct_Type (lookupStruct p' (currentPackageName p, typeName)) =
              Some (if Struct_Type (structOrFresh p typeName) = '''' then ''class''
                    else Struct_Type (structOrFresh p typeName))) \<and>
         (\<forall>pack name st. lookupStruct p (pack, name) = Some st \<longrightarrow> Struct_Type st \<noteq> '''' \<longrightarrow>
            \<not> (pack = currentPackageName p \<and> (\<exists>kind. declaredKind d = Some (name, kind))) \<longrightarrow>
            map_option Struct_Type (lookupStruct p' (pack, name)) = Some (Struct_Type st))"
proof (intro conjI allI impI)
  note e = parseFileDeclarations_effect [OF assms]
  from e have look: "lookupStruct p' q =
            (case declEffect gft d of
               None \<Rightarrow> lookupStruct p q
             | Some (typeName, g) \<Rightarrow>
                 if q = (currentPackageName p, typeName)
                 then Some (g (structOrFresh p typeName))
                 else lookupStruct p q)" for q
    by blast
  {
    fix typeName kind
    assume dk: "declaredKind d = Some (typeName, kind)"
    from declaredKind_effect [OF dk, of gft] obtain g where g: "declEffect gft d = Some (typeName, g)"
      by blast
    from declEffect_kind(1) [OF g] dk have "Struct_Type (g (structOrFresh p typeName)) = kind"
      by simp
    then show "map_option Struct_Type (lookupStruct p' (currentPackageName p, typeName)) = Some kind"
      by (simp add: look g)
  }
  {
    fix typeName
    assume rt: "receiverType gft d = Some typeName"
    from receiverType_effect [OF rt] obtain g where
      dk: "declaredKind d = None" and g: "declEffect gft d = Some (typeName, g)"
      by blast
    from declEffect_kind(1) [OF g] dk
    have "Struct_Type (g (structOrFresh p typeName)) =
          (if Struct_Type (structOrFresh p typeName) = '''' then ''class''
           else Struct_Type (structOrFresh p typeName))"
      by simp
    then show "map_option Struct_Type (lookupStruct p' (currentPackageName p, typeName)) =
              Some (if Struct_Type (structOrFresh p typeName) = '''' then ''class''
                    else Struct_Type (structOrFresh p typeName))"
      by (simp add: look g)
  }
  {
    fix pack name st
    assume l: "lookupStruct p (pack, name) = Some st"
      and k: "Struct_Type st \<noteq> ''''"
      and n: "\<not> (pack = currentPackageName p \<and> (\<exists>kind. declaredKind d = Some (name, kind)))"
    show "map_option Struct_Type (lookupStruct p' (pack, name)) = Some (Struct_Type st)"
    proof (cases "declEffect gft d")
      case None
      with l show ?thesis by (simp add: look)
    next
      case (Some a)
      then obtain typeName g where g: "declEffect gft d = Some (typeName, g)" by (cases a) simp
      show ?thesis
      proof (cases "(pack, name) = (currentPackageName p, typeName)")
        case False
        with l show ?thesis by (auto simp: look g)
      next
        case True
        with l have s: "structOrFresh p typeName = st" by (simp add: structOrFresh_def)
        from declEffect_kind(2) [OF g] n True have "declaredKind d = None" by auto
        with declEffect_kind(1) [OF g, of st] k have "Struct_Type (g st) = Struct_Type st"
          by simp
        with True show ?thesis by (simp add: look g s)
      qed
    qed
  }
qed

theorem kind_assignment_witness:
  "parseFileDeclarations exprText pkgState connStructDecl =
     Inr (connState (connStruct ''class'' []) []) \<and>
   declaredKind connStructDecl = Some (''Conn'', ''class'') \<and>
   map_option Struct_Type (lookupStruct (connState (connStruct ''class'' []) []) (''pkg'', ''Conn'')) =
     Some ''class'' \<and>
   parseFileDeclarations exprText (connState (connStruct ''class'' []) []) connMethodDecl =
     Inr (connState (connStruct ''class''
            [\<lparr>Function_Name = ''Close'', Parameters = [], ReturnValues = []\<rparr>]) []) \<and>
   receiverType exprText connMethodDecl = Some ''Conn'' \<and>
   map_option Struct_Type
     (lookupStruct (connState (connStruct ''class''
            [\<lparr>Function_Name = ''Close'', Parameters = [], ReturnValues = []\<rparr>]) [])
        (''pkg'', ''Conn'')) = Some ''class''"
proof -
  have run1: "parseFileDeclarations exprText pkgState connStructDecl =
     Inr (connState (connStruct ''class'' []) [])"
    by (simp add: parseFileDeclarations_def pkgState_def connStructDecl_def
        connState_def connStruct_def setDeclarationType_def getOrCreateStruct_def
        updateStruct_def lookupStruct_def Let_def)
  have run2: "parseFileDeclarations exprText (connState (connStruct ''class'' []) []) connMethodDecl =
     Inr (connState (connStruct ''class''
            [\<lparr>Function_Name = ''Close'', Parameters = [], ReturnValues = []\<rparr>]) [])"
    by (simp add: parseFileDeclarations_def connMethodDecl_def exprText_def
        connState_def connStruct_def getOrCreateStruct_def AddMethod_def getFunction_def
        updateStruct_def lookupStruct_def Let_def)
  have dk: "declaredKind connStructDecl = Some (''Conn'', ''class'')"
    by (simp add: declaredKind_def connStructDecl_def)
  have rt: "receiverType exprText connMethodDecl = Some ''Conn''"
    by (simp add: receiverType_def connMethodDecl_def exprText_def)
  have cur: "currentPackageName pkgState = ''pkg''"
    "currentPackageName (connState (connStruct ''class'' []) []) = ''pkg''"
    by (simp_all add: pkgState_def connState_def)
  have old: "Struct_Type (structOrFresh (connState (connStruct ''class'' []) []) ''Conn'') = ''class''"
    by (simp add: structOrFresh_def lookupStruct_def connState_def connStruct_def)
  from kind_assignment [OF run1] dk cur
  have "map_option Struct_Type
          (lookupStruct (connState (connStruct ''class'' []) []) (''pkg'', ''Conn'')) = Some ''class''"
    by simp
  moreover from kind_assignment [OF run2] rt cur old
  have "map_option Struct_Type
     (lookupStruct (connState (connStruct ''class''
            [\<lparr>Function_Name = ''Close'', Parameters = [], ReturnValues = []\<rparr>]) [])
        (''pkg'', ''Conn'')) = Some ''class''"
    by simp
  ultimately show ?thesis using run1 run2 dk rt by blast
qed

subsection \<open>What every declaration keeps, the loops keep\<close>

lemma parsePackage_eq:
  "parsePackage gft p pack = filesLoop gft (Files pack) (packageEntered p (Name pack))"
  by (simp add: parsePackage_def packageEntered_def Let_def)

lemma packageEntered_frame [simp]:
  "currentPackageName (packageEntered p name) = name"
  "allInterfaces (packageEntered p name) = allInterfaces p"
  "allStructs (packageEntered p name) = allStructs p"
  by (simp_all add: packageEntered_def Let_def split: option.splits)

lemma packageEntered_keys:
  "fst ` set (structure (packageEntered p name)) = insert name (fst ` set (structure p))"
proof (cases "map_of (structure p) name")
  case None
  then show ?thesis
    by (simp add: packageEntered_def Let_def AList.dom_update)
next
  case (Some m)
  then have "name \<in> fst ` set (structure p)"
    by (auto dest: map_of_SomeD intro: rev_image_eqI)
  with Some show ?thesis
    by (auto simp: packageEntered_def Let_def)
qed

lemma packageEntered_lookup [simp]:
  "lookupStruct (packageEntered p name) q = lookupStruct p q"
  by (cases q)
     (auto simp: packageEntered_def Let_def lookupStruct_def AList.update_conv'
        split: option.splits)

lemma packageEntered_uniqueKeys: "uniqueKeys p \<Longrightarrow> uniqueKeys (packageEntered p name)"
  by (auto simp: packageEntered_def Let_def uniqueKeys_def AList.distinct_update
        map_of_update_list_all split: option.splits)

lemma declsLoop_invariant:
  assumes "declsLoop gft ds p = Inr p'" and "P p"
    and "\<And>p d p'. P p \<Longrightarrow> parseFileDeclarations gft p d = Inr p' \<Longrightarrow> P p'"
  shows "P p'"
  using assms(1,2)
proof (induction ds arbitrary: p)
  case Nil
  then show ?case by simp
next
  case (Cons d ds)
  from Cons.prems(1) obtain p1 where
    s: "parseFileDeclarations gft p d = Inr p1" and r: "declsLoop gft ds p1 = Inr p'"
    by (auto split: sum.splits)
  from assms(3) [OF Cons.prems(2) s] have "P p1" .
  with r show ?case by (rule Cons.IH)
qed

lemma filesLoop_invariant:
  assumes "filesLoop gft fs p = Inr p'" and "P p"
    and "\<And>p d p'. P p \<Longrightarrow> parseFileDeclarations gft p d = Inr p' \<Longrightarrow> P p'"
  shows "P p'"
  using assms(1,2)
proof (induction fs arbitrary: p)
  case Nil
  then show ?case by simp
next
  case (Cons x fs)
  obtain fileName f where x: "x = (fileName, f)" by (cases x)
  show ?case
  proof (cases "HasSuffix fileName ''_test.go''")
    case True
    with Cons.prems(1) have "filesLoop gft fs p = Inr p'" by (simp add: x)
    from this Cons.prems(2) show ?thesis by (rule Cons.IH)
  next
    case False
    with Cons.prems(1) obtain p1 where
      s: "declsLoop gft (Decls f) p = Inr p1" and r: "filesLoop gft fs p1 = Inr p'"
      by (auto simp: x split: sum.splits)
    from s Cons.prems(2) assms(3) have "P p1" by (rule declsLoop_invariant)
    with r show ?thesis by (rule Cons.IH)
  qed
qed

lemma parsePackagesLoop_invariant:
  assumes "parsePackagesLoop gft vs p = Inr p'" and "P p"
    and "\<And>p d p'. P p \<Longrightarrow> parseFileDeclarations gft p d = Inr p' \<Longrightarrow> P p'"
    and "\<And>p v. v \<in> set vs \<Longrightarrow> P p \<Longrightarrow> P (packageEntered p (Name v))"
  shows "P p'"
  using assms(1,2,4)
proof (induction vs arbitrary: p)
  case Nil
  then show ?case by simp
next
  case (Cons v vs)
  from Cons.prems(1) obtain p1 where
    s: "filesLoop gft (Files v) (packageEntered p (Name v)) = Inr p1"
    and r: "parsePackagesLoop gft vs p1 = Inr p'"
    by (auto simp: parsePackage_eq split: sum.splits)
  have "P (packageEntered p (Name v))" by (rule Cons.prems(3)) (simp_all add: Cons.prems(2))
  with s have "P p1" using assms(3) by (rule filesLoop_invariant)
  with r show ?case by (rule Cons.IH) (simp add: Cons.prems(3))
qed

lemma interfacesLoop_invariant:
  assumes "interfacesLoop st is p = Inr p'" and "P p"
    and "\<And>p ptr i. P p \<Longrightarrow> P (updateStruct ptr (\<lambda>x. AddToExtends x i) p)"
  shows "P p'"
  using assms(1,2)
proof (induction "is" arbitrary: p)
  case Nil
  then show ?case by simp
next
  case (Cons i rest)
  from Cons.prems(1) obtain iface s it where
    r: "interfacesLoop st rest
          (if ImplementsInterface s it then updateStruct st (\<lambda>x. AddToExtends x i) p else p) = Inr p'"
    by (auto split: sum.splits option.splits)
  have "P (if ImplementsInterface s it then updateStruct st (\<lambda>x. AddToExtends x i) p else p)"
    using Cons.prems(2) assms(3) by simp
  with r show ?case by (rule Cons.IH)
qed

lemma structsLoop_invariant:
  assumes "structsLoop ss p = Inr p'" and "P p"
    and "\<And>p ptr i. P p \<Longrightarrow> P (updateStruct ptr (\<lambda>x. AddToExtends x i) p)"
  shows "P p'"
  using assms(1,2)
proof (induction ss arbitrary: p)
  case Nil
  then show ?case by simp
next
  case (Cons s ss)
  show ?case
  proof (cases "getStruct p s")
    case (Inl e)
    with Cons.prems(1) show ?thesis by simp
  next
    case (Inr r)
    show ?thesis
    proof (cases r)
      case None
      with Inr Cons.prems(1) have "structsLoop ss p = Inr p'" by simp
      from this Cons.prems(2) show ?thesis by (rule Cons.IH)
    next
      case (Some st)
      with Inr Cons.prems(1) obtain p1 where
        i: "interfacesLoop st (allInterfaces p) p = Inr p1" and r: "structsLoop ss p1 = Inr p'"
        by (auto split: sum.splits)
      from i Cons.prems(2) assms(3) have "P p1" by (rule interfacesLoop_invariant)
      with r show ?thesis by (rule Cons.IH)
    qed
  qed
qed

subsection \<open>The model of the example directory\<close>

lemma NewClassDiagram_speakerDir:
  "NewClassDiagram exprText speakerDir ''src'' = Inr (Some speakerModel, None)"
  by (simp add: NewClassDiagram_def speakerDir_def speakerDecls_def speakerModel_def
        speakerStruct_def dogStruct_def myIntStruct_def speakMethod_def exprText_def
        parsePackage_def HasSuffix_def parseFileDeclarations_def setDeclarationType_def
        getOrCreateStruct_def updateStruct_def lookupStruct_def getStruct_def SplitN_dot_2_def
        AddField_def AddMethod_def getFunction_def AddToExtends_def ImplementsInterface_def
        SignaturesAreEqual_def Let_def)

subsection \<open>Every type in the table has a kind\<close>

lemma structOrFresh_kind:
  assumes "uniqueKeys p" and "kindsAssigned p"
  shows "Struct_Type (structOrFresh p typeName) = '''' \<or>
         Struct_Type (structOrFresh p typeName) = ''class'' \<or>
         Struct_Type (structOrFresh p typeName) = ''interface''"
proof (cases "lookupStruct p (currentPackageName p, typeName)")
  case None
  then show ?thesis by (simp add: structOrFresh_def)
next
  case (Some st)
  with assms(2) [unfolded kindsAssigned_lookup [OF assms(1)]] show ?thesis
    by (auto simp: structOrFresh_def)
qed

lemma kinds_step:
  assumes "uniqueKeys p \<and> kindsAssigned p" and "parseFileDeclarations gft p d = Inr p'"
  shows "uniqueKeys p' \<and> kindsAssigned p'"
proof -
  from assms(1) have u: "uniqueKeys p" and k: "kindsAssigned p" by simp_all
  note e = parseFileDeclarations_effect [OF assms(2)]
  from e u have u': "uniqueKeys p'" by blast
  from e have look: "lookupStruct p' q =
            (case declEffect gft d of
               None \<Rightarrow> lookupStruct p q
             | Some (typeName, g) \<Rightarrow>
                 if q = (currentPackageName p, typeName)
                 then Some (g (structOrFresh p typeName))
                 else lookupStruct p q)" for q
    by blast
  have "Struct_Type st = ''class'' \<or> Struct_Type st = ''interface''"
    if l: "lookupStruct p' q = Some st" for q st
  proof (cases "declEffect gft d")
    case None
    with l have "lookupStruct p q = Some st" by (simp add: look)
    with k [unfolded kindsAssigned_lookup [OF u]] show ?thesis by blast
  next
    case (Some a)
    then obtain typeName g where g: "declEffect gft d = Some (typeName, g)" by (cases a) simp
    show ?thesis
    proof (cases "q = (currentPackageName p, typeName)")
      case False
      with l have "lookupStruct p q = Some st" by (simp add: look g)
      with k [unfolded kindsAssigned_lookup [OF u]] show ?thesis by blast
    next
      case True
      with l have st: "st = g (structOrFresh p typeName)" by (simp add: look g)
      show ?thesis
      proof (cases "declaredKind d")
        case None
        with declEffect_kind(1) [OF g, of "structOrFresh p typeName"]
          structOrFresh_kind [OF u k, of typeName]
        show ?thesis by (auto simp: st)
      next
        case (Some b)
        then obtain n kind where dk: "declaredKind d = Some (n, kind)" by (cases b) simp
        with declEffect_kind(1) [OF g, of "structOrFresh p typeName"]
          declaredKind_effect [OF dk, of gft]
        show ?thesis by (auto simp: st)
      qed
    qed
  qed
  with u' show ?thesis by (simp add: kindsAssigned_lookup)
qed

lemma kindsAssignedD:
  "uniqueKeys p \<Longrightarrow> kindsAssigned p \<Longrightarrow> lookupStruct p q = Some st \<Longrightarrow>
   Struct_Type st = ''class'' \<or> Struct_Type st = ''interface''"
  by (cases q) (auto simp: kindsAssigned_lookup)

lemma kindsAssignedI:
  "uniqueKeys p \<Longrightarrow>
   (\<And>q st. lookupStruct p q = Some st \<Longrightarrow>
      Struct_Type st = ''class'' \<or> Struct_Type st = ''interface'') \<Longrightarrow>
   kindsAssigned p"
  by (simp add: kindsAssigned_lookup)

lemma kinds_packageEntered:
  assumes "uniqueKeys p \<and> kindsAssigned p"
  shows "uniqueKeys (packageEntered p name) \<and> kindsAssigned (packageEntered p name)"
proof -
  from assms have u: "uniqueKeys p" and k: "kindsAssigned p" by simp_all
  from u have u': "uniqueKeys (packageEntered p name)" by (rule packageEntered_uniqueKeys)
  moreover from u' have "kindsAssigned (packageEntered p name)"
  proof (rule kindsAssignedI)
    fix q st
    assume "lookupStruct (packageEntered p name) q = Some st"
    then have "lookupStruct p q = Some st" by simp
    with u k show "Struct_Type st = ''class'' \<or> Struct_Type st = ''interface''"
      by (rule kindsAssignedD)
  qed
  ultimately show ?thesis by simp
qed

lemma kinds_AddToExtends:
  assumes "uniqueKeys p \<and> kindsAssigned p"
  shows "uniqueKeys (updateStruct ptr (\<lambda>x. AddToExtends x i) p) \<and>
         kindsAssigned (updateStruct ptr (\<lambda>x. AddToExtends x i) p)"
proof -
  from assms have u: "uniqueKeys p" and k: "kindsAssigned p" by simp_all
  from u have u': "uniqueKeys (updateStruct ptr (\<lambda>x. AddToExtends x i) p)"
    by (rule uniqueKeys_updateStruct)
  moreover from u' have "kindsAssigned (updateStruct ptr (\<lambda>x. AddToExtends x i) p)"
  proof (rule kindsAssignedI)
    fix q st
    assume "lookupStruct (updateStruct ptr (\<lambda>x. AddToExtends x i) p) q = Some st"
    then obtain st0 where l: "lookupStruct p q = Some st0" and t: "Struct_Type st = Struct_Type st0"
      by (auto simp: lookupStruct_updateStruct AddToExtends_def split: if_splits)
    from kindsAssignedD [OF u k l] t
    show "Struct_Type st = ''class'' \<or> Struct_Type st = ''interface''" by simp
  qed
  ultimately show ?thesis by simp
qed

text \<open>
  Claim C10. After any sequence of declarations has been read, every type in the table
  has the kind \<^verbatim>\<open>class\<close> or \<^verbatim>\<open>interface\<close>, provided that held before; so it holds
  for the model that \<open>NewClassDiagram\<close> returns, and \<open>Render\<close> meets no type whose kind is
  empty.
\<close>

theorem kinds_assigned:
  "(uniqueKeys p \<and> kindsAssigned p \<and> declsLoop gft ds p = Inr p' \<longrightarrow>
      uniqueKeys p' \<and> kindsAssigned p') \<and>
   (NewClassDiagram gft ParseDir dir = Inr (Some cp, err) \<longrightarrow> kindsAssigned cp)"
proof (rule conjI; rule impI)
  assume a: "uniqueKeys p \<and> kindsAssigned p \<and> declsLoop gft ds p = Inr p'"
  then have run: "declsLoop gft ds p = Inr p'" and inv: "uniqueKeys p \<and> kindsAssigned p"
    by simp_all
  show "uniqueKeys p' \<and> kindsAssigned p'"
    by (rule declsLoop_invariant [where P = "\<lambda>p. uniqueKeys p \<and> kindsAssigned p", OF run inv])
       (rule kinds_step)
next
  assume a: "NewClassDiagram gft ParseDir dir = Inr (Some cp, err)"
  let ?p0 = "\<lparr>structure = [], currentPackageName = '''', allInterfaces = [], allStructs = []\<rparr>"
  from a obtain result p1 where
    b: "parsePackagesLoop gft result ?p0 = Inr p1" and r: "structsLoop (allStructs p1) p1 = Inr cp"
    by (auto simp: NewClassDiagram_def split: sum.splits)
  have i0: "uniqueKeys ?p0 \<and> kindsAssigned ?p0" by (simp add: uniqueKeys_def kindsAssigned_def)
  have i1: "uniqueKeys p1 \<and> kindsAssigned p1"
  proof (rule parsePackagesLoop_invariant
          [where P = "\<lambda>p. uniqueKeys p \<and> kindsAssigned p", OF b i0])
    fix p d p'
    assume "uniqueKeys p \<and> kindsAssigned p" and "parseFileDeclarations gft p d = Inr p'"
    then show "uniqueKeys p' \<and> kindsAssigned p'" by (rule kinds_step)
  next
    fix p v
    assume "uniqueKeys p \<and> kindsAssigned p"
    then show "uniqueKeys (packageEntered p (Name v)) \<and> kindsAssigned (packageEntered p (Name v))"
      by (rule kinds_packageEntered)
  qed
  have "uniqueKeys cp \<and> kindsAssigned cp"
    by (rule structsLoop_invariant [where P = "\<lambda>p. uniqueKeys p \<and> kindsAssigned p", OF r i1])
       (rule kinds_AddToExtends)
  then show "kindsAssigned cp" by simp
qed

theorem kinds_assigned_witness:
  "uniqueKeys pkgState \<and> kindsAssigned pkgState \<and>
   declsLoop exprText [connMethodDecl, connStructDecl] pkgState =
     Inr (connState (connStruct ''class''
            [\<lparr>Function_Name = ''Close'', Parameters = [], ReturnValues = []\<rparr>]) []) \<and>
   kindsAssigned (connState (connStruct ''class''
            [\<lparr>Function_Name = ''Close'', Parameters = [], ReturnValues = []\<rparr>]) []) \<and>
   NewClassDiagram exprText speakerDir ''src'' = Inr (Some speakerModel, None) \<and>
   kindsAssigned speakerModel"
proof -
  have u: "uniqueKeys pkgState" and k: "kindsAssigned pkgState"
    by (simp_all add: uniqueKeys_def kindsAssigned_def pkgState_def)
  have run: "declsLoop exprText [connMethodDecl, connStructDecl] pkgState =
     Inr (connState (connStruct ''class''
            [\<lparr>Function_Name = ''Close'', Parameters = [], ReturnValues = []\<rparr>]) [])"
    by (simp add: parseFileDeclarations_def connMethodDecl_def connStructDecl_def exprText_def
        pkgState_def connState_def connStruct_def getOrCreateStruct_def AddMethod_def
        getFunction_def setDeclarationType_def updateStruct_def lookupStruct_def Let_def)
  from kinds_assigned [of pkgState exprText "[connMethodDecl, connStructDecl]" _ speakerDir
         "''src''" speakerModel None]
    u k run NewClassDiagram_speakerDir
  show ?thesis by blast
qed

subsection \<open>The error of the external parser\<close>

text \<open>
  Claim C9. \<open>NewClassDiagram\<close> returns an error iff the external parser fails; it then
  returns that very error and no model. When the parser succeeds it returns a model and no
  error, unless it panics.
\<close>

theorem parse_failure_propagated:
  "((\<exists>m e. NewClassDiagram gft ParseDir dir = Inr (m, Some e)) = (\<exists>e. ParseDir dir = Inl e)) \<and>
   (\<forall>e. ParseDir dir = Inl e \<longrightarrow> NewClassDiagram gft ParseDir dir = Inr (None, Some e)) \<and>
   (\<forall>pkgs. ParseDir dir = Inr pkgs \<longrightarrow>
      (\<exists>cp. NewClassDiagram gft ParseDir dir = Inr (Some cp, None)) \<or>
      (\<exists>pn. NewClassDiagram gft ParseDir dir = Inl pn))"
proof (cases "ParseDir dir")
  case (Inl e)
  then show ?thesis by (simp add: NewClassDiagram_def)
next
  case (Inr pkgs)
  then show ?thesis by (auto simp: NewClassDiagram_def split: sum.splits)
qed

theorem parse_failure_propagated_witness:
  "speakerDir ''bad'' = Inl ''syntax error'' \<and>
   NewClassDiagram exprText speakerDir ''bad'' = Inr (None, Some ''syntax error'') \<and>
   (\<exists>pkgs. speakerDir ''src'' = Inr pkgs) \<and>
   NewClassDiagram exprText speakerDir ''src'' = Inr (Some speakerModel, None)"
proof -
  have bad: "speakerDir ''bad'' = Inl ''syntax error''" by (simp add: speakerDir_def)
  have good: "\<exists>pkgs. speakerDir ''src'' = Inr pkgs" by (simp add: speakerDir_def)
  from parse_failure_propagated [of exprText speakerDir "''bad''"] bad
  have "NewClassDiagram exprText speakerDir ''bad'' = Inr (None, Some ''syntax error'')"
    by blast
  with bad good NewClassDiagram_speakerDir show ?thesis by blast
qed

text \<open>
  The panic is there: a declaration group without a specification, such as
  \<^verbatim>\<open>import ()\<close>, is accepted by the parser, and \<^verbatim>\<open>decl.Specs[0]\<close> is out of range.
\<close>

lemma empty_declaration_group_panics:
  "parseFileDeclarations gft p (GenDecl []) = Inl IndexOutOfRange \<and>
   NewClassDiagram gft
     (\<lambda>dir. Inr [\<lparr>Name = ''pkg'', Files = [(''a.go'', \<lparr>Decls = [GenDecl []]\<rparr>)]\<rparr>]) dir =
     Inl IndexOutOfRange"
  by (simp add: parseFileDeclarations_def NewClassDiagram_def parsePackage_def HasSuffix_def)

section \<open>Properties of the resolution pass\<close>

subsection \<open>What the pass leaves as it is\<close>

lemma sameButExtendsD:
  "sameButExtends p p' \<Longrightarrow> rel_option extendsGrown (lookupStruct p q) (lookupStruct p' q)"
  unfolding sameButExtends_def by blast

lemma sameButExtendsI:
  "allInterfaces p' = allInterfaces p \<Longrightarrow> allStructs p' = allStructs p \<Longrightarrow>
   map fst (structure p') = map fst (structure p) \<Longrightarrow>
   (\<And>q. rel_option extendsGrown (lookupStruct p q) (lookupStruct p' q)) \<Longrightarrow>
   sameButExtends p p'"
  unfolding sameButExtends_def by blast

lemma sameButExtends_frame:
  assumes "sameButExtends p p'"
  shows "allInterfaces p' = allInterfaces p" and "allStructs p' = allStructs p"
    and "map fst (structure p') = map fst (structure p)"
  using assms unfolding sameButExtends_def by blast+

lemma sameButExtends_refl: "sameButExtends p p"
  by (rule sameButExtendsI) (simp_all add: option.rel_refl extendsGrown_def)

lemma sameButExtends_trans:
  assumes "sameButExtends p p1" and "sameButExtends p1 p2"
  shows "sameButExtends p p2"
proof (rule sameButExtendsI)
  fix q
  from sameButExtendsD [OF assms(1), of q] sameButExtendsD [OF assms(2), of q]
  show "rel_option extendsGrown (lookupStruct p q) (lookupStruct p2 q)"
    by (cases "lookupStruct p q"; cases "lookupStruct p1 q"; cases "lookupStruct p2 q")
       (auto simp: extendsGrown_def)
qed (simp_all add: sameButExtends_frame [OF assms(1)] sameButExtends_frame [OF assms(2)])

lemma sameButExtends_AddToExtends:
  "sameButExtends p (updateStruct ptr (\<lambda>x. AddToExtends x i) p)"
proof (rule sameButExtendsI)
  fix q
  show "rel_option extendsGrown (lookupStruct p q)
          (lookupStruct (updateStruct ptr (\<lambda>x. AddToExtends x i) p) q)"
    by (cases "lookupStruct p q")
       (auto simp: lookupStruct_updateStruct AddToExtends_def option.rel_refl extendsGrown_def)
qed simp_all

lemma sameButExtends_lookup:
  assumes "sameButExtends p p'" and "lookupStruct p q = Some s"
  shows "\<exists>s'. lookupStruct p' q = Some s' \<and> extendsGrown s s'"
  using sameButExtendsD [OF assms(1), of q] assms(2)
  by (cases "lookupStruct p' q") auto

lemma sameButExtends_lookup_back:
  assumes "sameButExtends p p'" and "lookupStruct p' q = Some s'"
  shows "\<exists>s. lookupStruct p q = Some s \<and> extendsGrown s s'"
  using sameButExtendsD [OF assms(1), of q] assms(2)
  by (cases "lookupStruct p q") auto

lemma sameButExtends_None:
  assumes "sameButExtends p p'"
  shows "(lookupStruct p' q = None) = (lookupStruct p q = None)"
  using sameButExtendsD [OF assms(1), of q]
  by (cases "lookupStruct p q"; cases "lookupStruct p' q") auto

lemma getStruct_alt:
  "getStruct p structName =
     (case SplitN_dot_2 structName of
        [] \<Rightarrow> Inl IndexOutOfRange
      | s0 # others \<Rightarrow>
          if map_of (structure p) s0 = None then Inr None
          else (case others of
                  [] \<Rightarrow> Inl IndexOutOfRange
                | s1 # _ \<Rightarrow>
                    if lookupStruct p (s0, s1) = None then Inr None else Inr (Some (s0, s1))))"
  by (auto simp: getStruct_def lookupStruct_def split: list.splits option.splits)

lemma sameButExtends_outer:
  assumes "sameButExtends p p'"
  shows "(map_of (structure p') k = None) = (map_of (structure p) k = None)"
proof -
  from sameButExtends_frame(3) [OF assms]
  have "set (map fst (structure p')) = set (map fst (structure p))" by simp
  then have "fst ` set (structure p') = fst ` set (structure p)" by simp
  then show ?thesis by (simp add: map_of_eq_None_iff)
qed

lemma sameButExtends_getStruct:
  assumes "sameButExtends p p'"
  shows "getStruct p' s = getStruct p s"
  by (auto simp: getStruct_alt sameButExtends_None [OF assms] sameButExtends_outer [OF assms]
        split: list.splits)

lemma ImplementsInterface_grown:
  "extendsGrown s s' \<Longrightarrow> extendsGrown i i' \<Longrightarrow>
   ImplementsInterface s' i' = ImplementsInterface s i"
  by (simp add: ImplementsInterface_def extendsGrown_def)

lemma SplitN_qualified:
  assumes "CHR ''.'' \<notin> set a"
  shows "SplitN_dot_2 (a @ ''.'' @ b) = [a, b]"
proof -
  from assms have d: "dropWhile (\<lambda>c. c \<noteq> CHR ''.'') (a @ ''.'' @ b) = ''.'' @ b"
    by (subst dropWhile_append2) auto
  from assms have t: "takeWhile (\<lambda>c. c \<noteq> CHR ''.'') (a @ ''.'' @ b) = a"
    by (subst takeWhile_append2) auto
  show ?thesis
    unfolding SplitN_dot_2_def d t by simp
qed

lemma getStruct_qualified:
  assumes "CHR ''.'' \<notin> set pack" and "lookupStruct p (pack, name) = Some st"
  shows "getStruct p (pack @ ''.'' @ name) = Inr (Some (pack, name))"
proof -
  from assms(2) have o: "map_of (structure p) pack \<noteq> None"
    by (auto simp: lookupStruct_def split: option.splits)
  have s: "SplitN_dot_2 (pack @ ''.'' @ name) = [pack, name]"
    using assms(1) by (rule SplitN_qualified)
  show ?thesis
    unfolding getStruct_alt s using o assms(2) by simp
qed

subsection \<open>The loops of the pass\<close>

lemma interfacesLoop_same:
  assumes "interfacesLoop st is p = Inr p'"
  shows "sameButExtends p p'"
  by (rule interfacesLoop_invariant [where P = "sameButExtends p", OF assms sameButExtends_refl])
     (erule sameButExtends_trans, rule sameButExtends_AddToExtends)

lemma structsLoop_same:
  assumes "structsLoop ss p = Inr p'"
  shows "sameButExtends p p'"
  by (rule structsLoop_invariant [where P = "sameButExtends p", OF assms sameButExtends_refl])
     (erule sameButExtends_trans, rule sameButExtends_AddToExtends)

lemma interfacesLoop_adds:
  assumes "interfacesLoop st is p = Inr p'"
    and "i \<in> set is" and "getStruct p i = Inr (Some iptr)"
    and "lookupStruct p st = Some R" and "lookupStruct p iptr = Some I"
    and "ImplementsInterface R I"
  shows "\<exists>R'. lookupStruct p' st = Some R' \<and> i \<in> set (Extends R')"
  using assms
proof (induction "is" arbitrary: p R I)
  case Nil
  then show ?case by simp
next
  case (Cons j rest)
  from Cons.prems(1,4) obtain jptr J where
    gj: "getStruct p j = Inr (Some jptr)" and lj: "lookupStruct p jptr = Some J"
    and r: "interfacesLoop st rest
              (if ImplementsInterface R J then updateStruct st (\<lambda>x. AddToExtends x j) p else p) = Inr p'"
    by (auto split: sum.splits option.splits)
  let ?p1 = "if ImplementsInterface R J then updateStruct st (\<lambda>x. AddToExtends x j) p else p"
  have s1: "sameButExtends p ?p1"
    by (simp add: sameButExtends_refl sameButExtends_AddToExtends)
  have s2: "sameButExtends ?p1 p'" using r by (rule interfacesLoop_same)
  show ?case
  proof (cases "i = j")
    case True
    with Cons.prems(3) gj have "iptr = jptr" by simp
    with Cons.prems(5) lj have "I = J" by simp
    with Cons.prems(6) have "lookupStruct ?p1 st = Some (AddToExtends R j)"
      by (simp add: lookupStruct_updateStruct Cons.prems(4))
    from sameButExtends_lookup [OF s2 this] obtain R' where
      "lookupStruct p' st = Some R'" and "extendsGrown (AddToExtends R j) R'"
      by blast
    with True show ?thesis by (auto simp: extendsGrown_def AddToExtends_def)
  next
    case False
    with Cons.prems(2) have mem: "i \<in> set rest" by simp
    from sameButExtends_lookup [OF s1 Cons.prems(4)] obtain R1 where
      l1: "lookupStruct ?p1 st = Some R1" and g1: "extendsGrown R R1" by blast
    from sameButExtends_lookup [OF s1 Cons.prems(5)] obtain I1 where
      l2: "lookupStruct ?p1 iptr = Some I1" and g2: "extendsGrown I I1" by blast
    have gi: "getStruct ?p1 i = Inr (Some iptr)"
      using Cons.prems(3) by (simp only: sameButExtends_getStruct [OF s1])
    have impl: "ImplementsInterface R1 I1"
      using Cons.prems(6) by (simp only: ImplementsInterface_grown [OF g1 g2])
    from Cons.IH [OF r mem gi l1 l2 impl] show ?thesis .
  qed
qed

lemma structsLoop_adds:
  assumes "structsLoop ss p = Inr p'"
    and "s \<in> set ss" and "getStruct p s = Inr (Some ptr)"
    and "i \<in> set (allInterfaces p)" and "getStruct p i = Inr (Some iptr)"
    and "lookupStruct p ptr = Some R" and "lookupStruct p iptr = Some I"
    and "ImplementsInterface R I"
  shows "\<exists>R'. lookupStruct p' ptr = Some R' \<and> i \<in> set (Extends R')"
  using assms
proof (induction ss arbitrary: p R I)
  case Nil
  then show ?case by simp
next
  case (Cons t ss)
  have later: "\<exists>R'. lookupStruct p' ptr = Some R' \<and> i \<in> set (Extends R')"
    if run: "structsLoop ss p1 = Inr p'" and same: "sameButExtends p p1" and mem: "s \<in> set ss"
    for p1
  proof -
    from sameButExtends_lookup [OF same Cons.prems(6)] obtain R1 where
      l1: "lookupStruct p1 ptr = Some R1" and g1: "extendsGrown R R1" by blast
    from sameButExtends_lookup [OF same Cons.prems(7)] obtain I1 where
      l2: "lookupStruct p1 iptr = Some I1" and g2: "extendsGrown I I1" by blast
    have gs: "getStruct p1 s = Inr (Some ptr)"
      using Cons.prems(3) by (simp only: sameButExtends_getStruct [OF same])
    have gi: "getStruct p1 i = Inr (Some iptr)"
      using Cons.prems(5) by (simp only: sameButExtends_getStruct [OF same])
    have ai: "i \<in> set (allInterfaces p1)"
      using Cons.prems(4) by (simp only: sameButExtends_frame(1) [OF same])
    have impl: "ImplementsInterface R1 I1"
      using Cons.prems(8) by (simp only: ImplementsInterface_grown [OF g1 g2])
    from Cons.IH [OF run mem gs ai gi l1 l2 impl] show ?thesis .
  qed
  show ?case
  proof (cases "getStruct p t")
    case (Inl e)
    with Cons.prems(1) show ?thesis by simp
  next
    case (Inr r)
    show ?thesis
    proof (cases r)
      case None
      with Inr Cons.prems(1) have run: "structsLoop ss p = Inr p'" by simp
      from None Inr Cons.prems(3) have "s \<noteq> t" by auto
      with Cons.prems(2) have "s \<in> set ss" by simp
      with run sameButExtends_refl show ?thesis by (rule later)
    next
      case (Some st)
      with Inr Cons.prems(1) obtain p1 where
        il: "interfacesLoop st (allInterfaces p) p = Inr p1" and run: "structsLoop ss p1 = Inr p'"
        by (auto split: sum.splits)
      have same: "sameButExtends p p1" using il by (rule interfacesLoop_same)
      show ?thesis
      proof (cases "s = t")
        case False
        with Cons.prems(2) have "s \<in> set ss" by simp
        with run same show ?thesis by (rule later)
      next
        case True
        with Inr Some Cons.prems(3) have "ptr = st" by simp
        with interfacesLoop_adds [OF il Cons.prems(4,5) _ Cons.prems(7,8)] Cons.prems(6)
        obtain R1 where l1: "lookupStruct p1 ptr = Some R1" and m1: "i \<in> set (Extends R1)"
          by auto
        from sameButExtends_lookup [OF structsLoop_same [OF run] l1] m1
        show ?thesis by (auto simp: extendsGrown_def)
      qed
    qed
  qed
qed

subsection \<open>Interfaces are registered\<close>

lemma interfacesRegistered_step:
  assumes "interfacesRegistered p" and "parseFileDeclarations gft p d = Inr p'"
  shows "interfacesRegistered p'"
proof -
  note e = parseFileDeclarations_effect [OF assms(2)]
  from e have look: "lookupStruct p' q =
            (case declEffect gft d of
               None \<Rightarrow> lookupStruct p q
             | Some (typeName, g) \<Rightarrow>
                 if q = (currentPackageName p, typeName)
                 then Some (g (structOrFresh p typeName))
                 else lookupStruct p q)" for q
    by blast
  from e have "map fst (structure p') = map fst (structure p)" by blast
  then have "set (map fst (structure p')) = set (map fst (structure p))" by simp
  then have keys: "fst ` set (structure p') = fst ` set (structure p)" by simp
  from e have ai: "allInterfaces p' =
           (case declaredKind d of
              None \<Rightarrow> allInterfaces p
            | Some (typeName, kind) \<Rightarrow>
                if kind = ''interface''
                then List.insert (currentPackageName p @ ''.'' @ typeName) (allInterfaces p)
                else allInterfaces p)"
    by blast
  have mono: "set (allInterfaces p) \<subseteq> set (allInterfaces p')"
    by (auto simp: ai split: option.splits)
  from assms(1) have reg: "pack @ ''.'' @ name \<in> set (allInterfaces p)"
    if "lookupStruct p (pack, name) = Some st" and "Struct_Type st = ''interface''"
    for pack name st
    using that unfolding interfacesRegistered_def by blast
  have new: "pack @ ''.'' @ name \<in> set (allInterfaces p')"
    if l: "lookupStruct p' (pack, name) = Some st" and k: "Struct_Type st = ''interface''"
    for pack name st
  proof (cases "declEffect gft d")
    case None
    with l have "lookupStruct p (pack, name) = Some st" by (simp add: look)
    from reg [OF this k] mono show ?thesis by blast
  next
    case (Some a)
    then obtain typeName g where g: "declEffect gft d = Some (typeName, g)" by (cases a) simp
    show ?thesis
    proof (cases "(pack, name) = (currentPackageName p, typeName)")
      case False
      with l have "lookupStruct p (pack, name) = Some st" by (auto simp: look g)
      from reg [OF this k] mono show ?thesis by blast
    next
      case True
      with l have st: "st = g (structOrFresh p typeName)" by (simp add: look g)
      show ?thesis
      proof (cases "declaredKind d")
        case None
        with declEffect_kind(1) [OF g, of "structOrFresh p typeName"] k st
        have old: "Struct_Type (structOrFresh p typeName) = ''interface''"
          by (simp split: if_splits)
        then obtain st0 where l0: "lookupStruct p (currentPackageName p, typeName) = Some st0"
          and k0: "Struct_Type st0 = ''interface''"
          by (cases "lookupStruct p (currentPackageName p, typeName)")
             (simp_all add: structOrFresh_def)
        from reg [OF l0 k0] have "currentPackageName p @ ''.'' @ typeName \<in> set (allInterfaces p)" .
        with True mono show ?thesis by auto
      next
        case (Some b)
        then obtain n kind where dk: "declaredKind d = Some (n, kind)" by (cases b) simp
        with declEffect_kind(2) [OF g] have n: "n = typeName" by simp
        from declEffect_kind(1) [OF g, of "structOrFresh p typeName"] dk k st
        have "kind = ''interface''" by simp
        with dk n True show ?thesis by (simp add: ai)
      qed
    qed
  qed
  from assms(1) have "\<forall>pack \<in> fst ` set (structure p). CHR ''.'' \<notin> set pack"
    unfolding interfacesRegistered_def by blast
  with keys have "\<forall>pack \<in> fst ` set (structure p'). CHR ''.'' \<notin> set pack" by simp
  with new show ?thesis
    unfolding interfacesRegistered_def by blast
qed

lemma interfacesRegistered_packageEntered:
  assumes "interfacesRegistered p" and "CHR ''.'' \<notin> set name"
  shows "interfacesRegistered (packageEntered p name)"
  using assms unfolding interfacesRegistered_def
  by (simp add: packageEntered_keys)

subsection \<open>The extends edges that the resolution pass adds\<close>

text \<open>
  Claim C1. For every record \<open>R\<close> and every interface \<open>I\<close> of the model, if \<open>R\<close> has a
  matching method for every method of \<open>I\<close>, the qualified name of \<open>I\<close> is in the extends
  list of \<open>R\<close> after the resolution pass. The code misses the records that come from a
  method receiver alone. \<^verbatim>\<open>MyInt\<close> is declared as \<^verbatim>\<open>type MyInt int\<close> and has the method
  \<^verbatim>\<open>Speak()\<close>: lines 146 to 149 store it with kind \<^verbatim>\<open>class\<close>, but do not put its name
  into \<^verbatim>\<open>allStructs\<close> as line 135 does for a struct declaration, and the pass ranges
  over \<^verbatim>\<open>allStructs\<close> only. So \<^verbatim>\<open>MyInt\<close> has every method of the interface \<^verbatim>\<open>Speaker\<close>
  and an empty extends list, while the struct \<^verbatim>\<open>Dog\<close> with the same method has the edge.
\<close>

theorem receiver_only_record_gets_no_edge:
  "NewClassDiagram exprText speakerDir ''src'' = Inr (Some speakerModel, None) \<and>
   allStructs speakerModel = [''pkg.Dog''] \<and>
   lookupStruct speakerModel (''pkg'', ''Speaker'') = Some speakerStruct \<and>
   Struct_Type speakerStruct = ''interface'' \<and>
   lookupStruct speakerModel (''pkg'', ''MyInt'') = Some myIntStruct \<and>
   Struct_Type myIntStruct = ''class'' \<and>
   ImplementsInterface myIntStruct speakerStruct \<and>
   ''pkg.Speaker'' \<notin> set (Extends myIntStruct) \<and>
   lookupStruct speakerModel (''pkg'', ''Dog'') = Some dogStruct \<and>
   Struct_Type dogStruct = ''class'' \<and>
   ImplementsInterface dogStruct speakerStruct \<and>
   ''pkg.Speaker'' \<in> set (Extends dogStruct)"
  using NewClassDiagram_speakerDir
  by (simp add: speakerModel_def lookupStruct_def myIntStruct_def speakerStruct_def dogStruct_def
        ImplementsInterface_def SignaturesAreEqual_def speakMethod_def)

text \<open>
  What the pass does reach: for every type \<open>R\<close> whose name a struct declaration has put
  into \<^verbatim>\<open>allStructs\<close> and every type \<open>I\<close> of kind \<^verbatim>\<open>interface\<close> in the model that
  \<open>NewClassDiagram\<close> returns, in whatever packages the two are, if every method of \<open>I\<close>
  has on \<open>R\<close> a method with the same name, parameter types and return types, then the
  qualified name of \<open>I\<close> is in the extends list of \<open>R\<close>. Package names contain no dot.
\<close>

lemma declared_struct_extends_interface:
  assumes "NewClassDiagram gft ParseDir dir = Inr (Some cp, err)"
    and "ParseDir dir = Inr pkgs"
    and "\<forall>v \<in> set pkgs. CHR ''.'' \<notin> set (Name v)"
    and "lookupStruct cp (rpack, rname) = Some R"
    and "rpack @ ''.'' @ rname \<in> set (allStructs cp)"
    and "lookupStruct cp (ipack, iname) = Some I"
    and "Struct_Type I = ''interface''"
    and "ImplementsInterface R I"
  shows "ipack @ ''.'' @ iname \<in> set (Extends R)"
proof -
  let ?p0 = "\<lparr>structure = [], currentPackageName = '''', allInterfaces = [], allStructs = []\<rparr>"
  from assms(1,2) obtain p1 where
    b: "parsePackagesLoop gft pkgs ?p0 = Inr p1" and r: "structsLoop (allStructs p1) p1 = Inr cp"
    by (auto simp: NewClassDiagram_def split: sum.splits)
  have i0: "interfacesRegistered ?p0"
    by (simp add: interfacesRegistered_def lookupStruct_def)
  have i1: "interfacesRegistered p1"
  proof (rule parsePackagesLoop_invariant [where P = interfacesRegistered, OF b i0])
    fix p d p'
    assume "interfacesRegistered p" and "parseFileDeclarations gft p d = Inr p'"
    then show "interfacesRegistered p'" by (rule interfacesRegistered_step)
  next
    fix p v
    assume "v \<in> set pkgs" and "interfacesRegistered p"
    with assms(3) show "interfacesRegistered (packageEntered p (Name v))"
      by (intro interfacesRegistered_packageEntered) auto
  qed
  have same: "sameButExtends p1 cp" using r by (rule structsLoop_same)
  from sameButExtends_lookup_back [OF same assms(4)] obtain R0 where
    lr: "lookupStruct p1 (rpack, rname) = Some R0" and gr: "extendsGrown R0 R" by blast
  from sameButExtends_lookup_back [OF same assms(6)] obtain I0 where
    li: "lookupStruct p1 (ipack, iname) = Some I0" and gi: "extendsGrown I0 I" by blast
  have dot: "CHR ''.'' \<notin> set pack" if "lookupStruct p1 (pack, name) = Some st" for pack name st
  proof -
    from that have "pack \<in> fst ` set (structure p1)"
      by (auto simp: lookupStruct_def split: option.splits dest: map_of_SomeD intro: rev_image_eqI)
    with i1 show ?thesis unfolding interfacesRegistered_def by blast
  qed
  have gsr: "getStruct p1 (rpack @ ''.'' @ rname) = Inr (Some (rpack, rname))"
    using dot [OF lr] lr by (rule getStruct_qualified)
  have gsi: "getStruct p1 (ipack @ ''.'' @ iname) = Inr (Some (ipack, iname))"
    using dot [OF li] li by (rule getStruct_qualified)
  from gi assms(7) have "Struct_Type I0 = ''interface''" by (simp add: extendsGrown_def)
  with i1 li have ai: "ipack @ ''.'' @ iname \<in> set (allInterfaces p1)"
    unfolding interfacesRegistered_def by blast
  from assms(5) have as: "rpack @ ''.'' @ rname \<in> set (allStructs p1)"
    by (simp only: sameButExtends_frame(2) [OF same])
  from assms(8) have impl: "ImplementsInterface R0 I0"
    by (simp only: ImplementsInterface_grown [OF gr gi])
  from structsLoop_adds [OF r as gsr ai gsi lr li impl] assms(4)
  show ?thesis by simp
qed

lemma declared_struct_extends_interface_example:
  "NewClassDiagram exprText speakerDir ''src'' = Inr (Some speakerModel, None) \<and>
   lookupStruct speakerModel (''pkg'', ''Dog'') = Some dogStruct \<and>
   ''pkg'' @ ''.'' @ ''Dog'' \<in> set (allStructs speakerModel) \<and>
   lookupStruct speakerModel (''pkg'', ''Speaker'') = Some speakerStruct \<and>
   Struct_Type speakerStruct = ''interface'' \<and>
   ImplementsInterface dogStruct speakerStruct \<and>
   ''pkg'' @ ''.'' @ ''Speaker'' \<in> set (Extends dogStruct)"
proof -
  have pd: "speakerDir ''src'' =
            Inr [\<lparr>Name = ''pkg'', Files = [(''a.go'', \<lparr>Decls = speakerDecls\<rparr>)]\<rparr>]"
    by (simp add: speakerDir_def)
  have names: "\<forall>v \<in> set [\<lparr>Name = ''pkg'', Files = [(''a.go'', \<lparr>Decls = speakerDecls\<rparr>)]\<rparr>].
                 CHR ''.'' \<notin> set (Name v)"
    by simp
  have l1: "lookupStruct speakerModel (''pkg'', ''Dog'') = Some dogStruct"
    by (simp add: speakerModel_def lookupStruct_def)
  have a1: "''pkg'' @ ''.'' @ ''Dog'' \<in> set (allStructs speakerModel)"
    by (simp add: speakerModel_def)
  have l2: "lookupStruct speakerModel (''pkg'', ''Speaker'') = Some speakerStruct"
    by (simp add: speakerModel_def lookupStruct_def)
  have k: "Struct_Type speakerStruct = ''interface''" by (simp add: speakerStruct_def)
  have impl: "ImplementsInterface dogStruct speakerStruct"
    by (simp add: ImplementsInterface_def SignaturesAreEqual_def dogStruct_def speakerStruct_def)
  from declared_struct_extends_interface [OF NewClassDiagram_speakerDir pd names l1 a1 l2 k impl]
    NewClassDiagram_speakerDir l1 a1 l2 k impl
  show ?thesis by (intro conjI)
qed

end
